theory Spec2Isabelle
  imports Complex_Main "HOL-Library.Char_ord" "HOL-Library.List_Lexorder" "HOL-Library.Sublist"
begin

section \<open>Data model of \<open>mcp_server.py\<close>\<close>

text \<open>
  The three pydantic models \<open>Hotel\<close>, \<open>Room\<close> and \<open>Booking\<close> become records. The fields
  keep the names of the source behind a prefix (\<open>h_\<close>, \<open>r_\<close>, \<open>b_\<close>), because the three
  classes share field names and \<open>id\<close> is a constant of HOL. Python's \<open>float\<close> is read as
  \<open>real\<close> (rounding is not modelled), \<open>int\<close> as \<open>int\<close>, \<open>str\<close> as \<open>string\<close>. A character
  is a code point below 256, and \<open>of_char\<close> gives its number. Strings are compared as
  Python compares them: lexicographically, code point by code point, a proper prefix
  being smaller. Dates and the booking status are strings in the source and stay strings
  here.
\<close>

record hotel =
  h_id :: string
  h_name :: string
  h_location :: string
  h_rating :: real
  h_amenities :: "string list"
  h_price_per_night :: real
  h_available_rooms :: int
  h_description :: string

record room =
  r_id :: string
  r_hotel_id :: string
  r_room_type :: string
  r_capacity :: int
  r_price_per_night :: real
  r_amenities :: "string list"
  r_available :: bool

record booking =
  b_id :: string
  b_hotel_id :: string
  b_room_id :: string
  b_guest_name :: string
  b_guest_email :: string
  b_check_in :: string
  b_check_out :: string
  b_total_price :: real
  b_status :: string

text \<open>The module-level lists \<open>HOTELS\<close>, \<open>ROOMS\<close> and \<open>BOOKINGS\<close> are the state.\<close>

record store =
  HOTELS :: "hotel list"
  ROOMS :: "room list"
  BOOKINGS :: "booking list"

section \<open>\<open>datetime.strptime(s, "%Y-%m-%d")\<close>\<close>

text \<open>
  The library call is modelled by what it accepts and by the day number of the date it
  returns. The format compiles to the regular expression
  \<^verbatim>\<open>(\d\d\d\d)-(1[0-2]|0[1-9]|[1-9])-(3[0-1]|[1-2]\d|0[1-9]|[1-9]| [1-9])\<close>,
  which must consume the whole string; the fields must then form a date of the proleptic
  Gregorian calendar with a year from 1 to 9999. Anything else raises \<open>ValueError\<close>, which
  is \<open>None\<close> here. The value returned is \<open>date.toordinal()\<close>, computed as the library
  computes it; the time of day is always midnight, so the \<open>.days\<close> of a difference of two
  results is the difference of the two ordinals. Digits are the ASCII digits.
\<close>

definition is_digit :: "char \<Rightarrow> bool" where
  "is_digit c \<longleftrightarrow> CHR ''0'' \<le> c \<and> c \<le> CHR ''9''"

definition digit_val :: "char \<Rightarrow> int" where
  "digit_val c = int (of_char c) - 48"

text \<open>The month field: \<^verbatim>\<open>1[0-2]|0[1-9]|[1-9]\<close>.\<close>

fun parse_month :: "string \<Rightarrow> int option" where
  "parse_month [c] = (if CHR ''1'' \<le> c \<and> c \<le> CHR ''9'' then Some (digit_val c) else None)"
| "parse_month [c, d] =
     (if c = CHR ''1'' \<and> CHR ''0'' \<le> d \<and> d \<le> CHR ''2'' then Some (10 + digit_val d)
      else if c = CHR ''0'' \<and> CHR ''1'' \<le> d \<and> d \<le> CHR ''9'' then Some (digit_val d)
      else None)"
| "parse_month _ = None"

text \<open>The day field: \<^verbatim>\<open>3[0-1]|[1-2]\d|0[1-9]|[1-9]| [1-9]\<close>.\<close>

fun parse_day :: "string \<Rightarrow> int option" where
  "parse_day [c] = (if CHR ''1'' \<le> c \<and> c \<le> CHR ''9'' then Some (digit_val c) else None)"
| "parse_day [c, d] =
     (if c = CHR ''3'' \<and> CHR ''0'' \<le> d \<and> d \<le> CHR ''1'' then Some (30 + digit_val d)
      else if CHR ''1'' \<le> c \<and> c \<le> CHR ''2'' \<and> is_digit d then Some (10 * digit_val c + digit_val d)
      else if c = CHR ''0'' \<and> CHR ''1'' \<le> d \<and> d \<le> CHR ''9'' then Some (digit_val d)
      else if c = CHR '' '' \<and> CHR ''1'' \<le> d \<and> d \<le> CHR ''9'' then Some (digit_val d)
      else None)"
| "parse_day _ = None"

text \<open>
  The three fields of a string the expression matches. The month alternatives hold digits
  only and a hyphen must follow, so the month is the text up to the next hyphen.
\<close>

fun parse_fields :: "string \<Rightarrow> (int \<times> int \<times> int) option" where
  "parse_fields (y1 # y2 # y3 # y4 # sep # rest) =
     (if is_digit y1 \<and> is_digit y2 \<and> is_digit y3 \<and> is_digit y4 \<and> sep = CHR ''-'' then
        (case dropWhile (\<lambda>c. c \<noteq> CHR ''-'') rest of
           [] \<Rightarrow> None
         | _ # day_text \<Rightarrow>
            (case parse_month (takeWhile (\<lambda>c. c \<noteq> CHR ''-'') rest) of
               None \<Rightarrow> None
             | Some m \<Rightarrow>
                (case parse_day day_text of
                   None \<Rightarrow> None
                 | Some d \<Rightarrow>
                     Some (1000 * digit_val y1 + 100 * digit_val y2 + 10 * digit_val y3
                             + digit_val y4, m, d))))
      else None)"
| "parse_fields _ = None"

definition is_leap :: "int \<Rightarrow> bool" where
  "is_leap year \<longleftrightarrow> year mod 4 = 0 \<and> (year mod 100 \<noteq> 0 \<or> year mod 400 = 0)"

definition days_before_year :: "int \<Rightarrow> int" where
  "days_before_year year =
     (let y = year - 1 in y * 365 + y div 4 - y div 100 + y div 400)"

definition days_in_month :: "int \<Rightarrow> int \<Rightarrow> int" where
  "days_in_month year month =
     (if month = 2 \<and> is_leap year then 29
      else [31, 28, 31, 30, 31, 30, 31, 31, 30, 31, 30, 31] ! nat (month - 1))"

definition days_before_month :: "int \<Rightarrow> int \<Rightarrow> int" where
  "days_before_month year month =
     [0, 31, 59, 90, 120, 151, 181, 212, 243, 273, 304, 334] ! nat (month - 1)
       + (if month > 2 \<and> is_leap year then 1 else 0)"

definition ymd2ord :: "int \<Rightarrow> int \<Rightarrow> int \<Rightarrow> int" where
  "ymd2ord year month day = days_before_year year + days_before_month year month + day"

definition valid_date :: "int \<Rightarrow> int \<Rightarrow> int \<Rightarrow> bool" where
  "valid_date year month day \<longleftrightarrow>
     1 \<le> year \<and> year \<le> 9999 \<and> 1 \<le> month \<and> month \<le> 12
       \<and> 1 \<le> day \<and> day \<le> days_in_month year month"

definition strptime :: "string \<Rightarrow> int option" where
  "strptime s =
     (case parse_fields s of
        None \<Rightarrow> None
      | Some (y, m, d) \<Rightarrow> if valid_date y m d then Some (ymd2ord y m d) else None)"

section \<open>The overlap predicate\<close>

text \<open>
  Both \<open>check_availability\<close> and \<open>book_hotel\<close> filter the ledger with
  \<^verbatim>\<open>not (check_out <= b.check_in or check_in >= b.check_out)\<close>.
  The first range is the request, the second the booking. The source applies it to the
  date strings; the definition is over any linear order, so that it can also be read on
  day numbers.
\<close>

definition overlaps :: "'a::linorder \<times> 'a \<Rightarrow> 'a \<times> 'a \<Rightarrow> bool" where
  "overlaps A B = (case A of (check_in, check_out) \<Rightarrow> case B of (b_in, b_out) \<Rightarrow>
     \<not> (check_out \<le> b_in \<or> check_in \<ge> b_out))"

definition active :: "booking \<Rightarrow> bool" where
  "active b \<longleftrightarrow> b_status b \<in> set [''confirmed'', ''pending'']"

text \<open>The condition of the list comprehension that builds \<open>conflicting_bookings\<close>.\<close>

definition conflicting :: "string \<Rightarrow> string \<Rightarrow> string \<Rightarrow> booking \<Rightarrow> bool" where
  "conflicting room_id check_in check_out b \<longleftrightarrow>
     b_room_id b = room_id \<and> active b
       \<and> overlaps (check_in, check_out) (b_check_in b, b_check_out b)"

section \<open>\<open>book_hotel\<close>\<close>

text \<open>
  Every tool returns \<open>json.dumps\<close> of a dictionary; the dictionaries \<open>book_hotel\<close> can
  build are the constructors of \<open>book_response\<close>: an error message alone, the conflict
  error with its \<open>conflicting_dates\<close>, and the confirmation (booking, hotel, room, nights,
  message). The function takes the store and returns the store it leaves. The result of
  \<open>uuid.uuid4()\<close> is an input.
\<close>

datatype book_response =
    BookError string
  | BookConflict string "string list"
  | BookConfirmed booking hotel room int string

definition book_hotel ::
  "store \<Rightarrow> string \<Rightarrow> string \<Rightarrow> string \<Rightarrow> string \<Rightarrow> string \<Rightarrow> string \<Rightarrow> string
     \<Rightarrow> book_response \<times> store" where
  "book_hotel s booking_id hotel_id room_id guest_name guest_email check_in check_out =
     (case find (\<lambda>h. h_id h = hotel_id) (HOTELS s) of
        None \<Rightarrow> (BookError ''Hotel not found'', s)
      | Some hotel \<Rightarrow>
     (case find (\<lambda>r. r_id r = room_id \<and> r_hotel_id r = hotel_id) (ROOMS s) of
        None \<Rightarrow> (BookError ''Room not found'', s)
      | Some room \<Rightarrow>
     if \<not> r_available room then (BookError ''Room is not available'', s)
     else
     (case strptime check_in of
        None \<Rightarrow> (BookError ''Invalid date format. Use YYYY-MM-DD'', s)
      | Some check_in_date \<Rightarrow>
     (case strptime check_out of
        None \<Rightarrow> (BookError ''Invalid date format. Use YYYY-MM-DD'', s)
      | Some check_out_date \<Rightarrow>
     let nights = check_out_date - check_in_date in
     if nights \<le> 0 then (BookError ''Invalid date range'', s)
     else
     let total_price = r_price_per_night room * real_of_int nights;
         conflicting_bookings = filter (conflicting room_id check_in check_out) (BOOKINGS s)
     in
     if conflicting_bookings \<noteq> [] then
       (BookConflict ''Room is not available for these dates due to existing bookings''
          (map (\<lambda>b. b_check_in b @ '' to '' @ b_check_out b) conflicting_bookings), s)
     else
     let booking = \<lparr> b_id = booking_id, b_hotel_id = hotel_id, b_room_id = room_id,
                     b_guest_name = guest_name, b_guest_email = guest_email,
                     b_check_in = check_in, b_check_out = check_out,
                     b_total_price = total_price, b_status = ''confirmed'' \<rparr>
     in (BookConfirmed booking hotel room nights
           (''Booking confirmed! Your reservation ID is '' @ booking_id),
         s\<lparr>BOOKINGS := BOOKINGS s @ [booking]\<rparr>)))))"

section \<open>\<open>check_availability\<close>\<close>

text \<open>
  The tool reads the store only. Its answers are the error and the dictionary with the
  arguments echoed and the list \<open>available_rooms\<close>. The loop over \<open>ROOMS\<close> keeps a room
  when it belongs to the hotel, is flagged available, is large enough, and its list of
  conflicting bookings is empty.
\<close>

datatype availability_response =
    AvailabilityError string
  | Availability string string string int "room list"

definition check_availability ::
  "store \<Rightarrow> string \<Rightarrow> string \<Rightarrow> string \<Rightarrow> int \<Rightarrow> availability_response" where
  "check_availability s hotel_id check_in check_out guests =
     (case find (\<lambda>h. h_id h = hotel_id) (HOTELS s) of
        None \<Rightarrow> AvailabilityError ''Hotel not found''
      | Some hotel \<Rightarrow>
          Availability hotel_id check_in check_out guests
            (filter (\<lambda>room. r_hotel_id room = hotel_id \<and> r_available room
                        \<and> r_capacity room \<ge> guests
                        \<and> filter (conflicting (r_id room) check_in check_out) (BOOKINGS s) = [])
               (ROOMS s)))"

section \<open>\<open>cancel_booking\<close>\<close>

text \<open>
  \<open>next(...)\<close> yields the first element that satisfies the condition, and the assignment
  to one of its fields changes that element of the list in place.
\<close>

fun update_first :: "('a \<Rightarrow> bool) \<Rightarrow> ('a \<Rightarrow> 'a) \<Rightarrow> 'a list \<Rightarrow> 'a list" where
  "update_first P f [] = []"
| "update_first P f (x # xs) = (if P x then f x # xs else x # update_first P f xs)"

text \<open>
  The success dictionary holds \<open>booking_id\<close>, \<open>previous_status\<close>, \<open>new_status\<close>, \<open>message\<close>
  and \<open>refund_amount\<close>, in this order.
\<close>

datatype cancel_response =
    CancelError string
  | Cancelled string string string string real

definition cancel_booking :: "store \<Rightarrow> string \<Rightarrow> cancel_response \<times> store" where
  "cancel_booking s booking_id =
     (case find (\<lambda>b. b_id b = booking_id) (BOOKINGS s) of
        None \<Rightarrow> (CancelError ''Booking not found'', s)
      | Some booking \<Rightarrow>
          if b_status booking = ''cancelled'' then (CancelError ''Booking is already cancelled'', s)
          else
            let old_status = b_status booking;
                bookings' = update_first (\<lambda>b. b_id b = booking_id)
                              (\<lambda>b. b\<lparr>b_status := ''cancelled''\<rparr>) (BOOKINGS s);
                rooms' = update_first (\<lambda>r. r_id r = b_room_id booking)
                           (\<lambda>r. r\<lparr>r_available := True\<rparr>) (ROOMS s)
            in (Cancelled booking_id old_status ''cancelled''
                  (''Booking '' @ booking_id @ '' has been successfully cancelled'')
                  (b_total_price booking),
                s\<lparr>ROOMS := rooms', BOOKINGS := bookings'\<rparr>))"

section \<open>\<open>search_hotels\<close>\<close>

text \<open>
  The string methods the search uses, on code points below 256. \<open>str.lower\<close> changes
  the capital letters and nothing else: \<open>A\<close> to \<open>Z\<close> (65 to 90) and the accented capitals
  192 to 222 without the multiplication sign 215, each moved up by 32. \<open>str.strip\<close>
  removes the white space of both ends, which is the code points 9 to 13, 28 to 32, 133
  (next line) and 160 (no-break space). \<open>str.split(",")\<close> cuts at every comma and always
  returns at least one piece, and \<open>x in y\<close> on two strings is \<^const>\<open>sublist\<close>.
\<close>

definition lower_char :: "char \<Rightarrow> char" where
  "lower_char c =
     (let n = (of_char c :: nat)
      in if (65 \<le> n \<and> n \<le> 90) \<or> (192 \<le> n \<and> n \<le> 222 \<and> n \<noteq> 215) then char_of (n + 32)
         else c)"

definition lower :: "string \<Rightarrow> string" where
  "lower s = map lower_char s"

definition is_space :: "char \<Rightarrow> bool" where
  "is_space c \<longleftrightarrow>
     (let n = (of_char c :: nat)
      in (9 \<le> n \<and> n \<le> 13) \<or> (28 \<le> n \<and> n \<le> 32) \<or> n = 133 \<or> n = 160)"

definition strip :: "string \<Rightarrow> string" where
  "strip s = rev (dropWhile is_space (rev (dropWhile is_space s)))"

fun split :: "char \<Rightarrow> string \<Rightarrow> string list" where
  "split sep [] = [[]]"
| "split sep (c # cs) =
     (if c = sep then [] # split sep cs
      else (case split sep cs of [] \<Rightarrow> [[c]] | w # ws \<Rightarrow> (c # w) # ws))"

text \<open>\<^verbatim>\<open>[a.strip().lower() for a in amenities.split(",") if a.strip()]\<close>\<close>

definition amenity_list_of :: "string \<Rightarrow> string list" where
  "amenity_list_of amenities =
     map (\<lambda>a. lower (strip a)) (filter (\<lambda>a. strip a \<noteq> []) (split CHR '','' amenities))"

text \<open>The condition under which the location filter lets a hotel through.\<close>

definition location_match :: "string \<Rightarrow> hotel \<Rightarrow> bool" where
  "location_match location hotel =
     (let location_lower = strip (lower location);
          hotel_location_lower = lower (h_location hotel)
      in sublist location_lower hotel_location_lower
         \<or> list_ex (\<lambda>loc_part. sublist (strip loc_part) hotel_location_lower)
              (filter (\<lambda>loc_part. strip loc_part \<noteq> []) (split CHR '','' location_lower))
         \<or> sublist (strip (case split CHR '','' hotel_location_lower of [] \<Rightarrow> [] | p # _ \<Rightarrow> p))
              location_lower)"

text \<open>
  The inner loop over the desired amenities: it sets \<open>amenity_match\<close> and breaks at the
  first desired amenity that some amenity of the hotel contains.
\<close>

fun amenity_match :: "string list \<Rightarrow> string list \<Rightarrow> bool" where
  "amenity_match [] hotel_amenities_lower = False"
| "amenity_match (desired_amenity # rest) hotel_amenities_lower =
     (if list_ex (\<lambda>hotel_amenity. sublist desired_amenity hotel_amenity) hotel_amenities_lower
      then True
      else amenity_match rest hotel_amenities_lower)"

text \<open>The body of the loop over \<open>HOTELS\<close>: each \<open>continue\<close> is a \<open>False\<close>.\<close>

definition hotel_selected :: "string \<Rightarrow> real \<Rightarrow> real \<Rightarrow> string list \<Rightarrow> hotel \<Rightarrow> bool" where
  "hotel_selected location min_rating max_price amenity_list hotel =
     (if location \<noteq> [] \<and> strip location \<noteq> [] \<and> \<not> location_match location hotel then False
      else if h_rating hotel < min_rating then False
      else if h_price_per_night hotel > max_price then False
      else if amenity_list \<noteq> []
                \<and> \<not> amenity_match amenity_list (map lower (h_amenities hotel)) then False
      else True)"

text \<open>The answer is the dictionary of the matching hotels and their count.\<close>

datatype search_response = SearchResult (result_hotels: "hotel list") (result_count: int)

definition search_hotels :: "store \<Rightarrow> string \<Rightarrow> real \<Rightarrow> real \<Rightarrow> string \<Rightarrow> search_response" where
  "search_hotels s location min_rating max_price amenities =
     (let amenity_list = amenity_list_of amenities;
          results = filter (hotel_selected location min_rating max_price amenity_list) (HOTELS s)
      in SearchResult results (int (length results)))"

section \<open>\<open>get_booking_statistics\<close>\<close>

text \<open>
  \<open>hotel_booking_counts\<close> is a dictionary, which keeps its keys in the order of their
  first insertion; it is an association list here. \<open>sorted\<close> with a key and
  \<open>reverse=True\<close> is a stable sort by descending key: elements with equal keys keep
  the order they had.
\<close>

fun dict_incr :: "string \<Rightarrow> (string \<times> int) list \<Rightarrow> (string \<times> int) list" where
  "dict_incr k [] = [(k, 0 + 1)]"
| "dict_incr k ((k', v) # kvs) =
     (if k' = k then (k', v + 1) # kvs else (k', v) # dict_incr k kvs)"

definition hotel_booking_counts :: "booking list \<Rightarrow> (string \<times> int) list" where
  "hotel_booking_counts bookings =
     foldl (\<lambda>counts booking. if active booking then dict_incr (b_hotel_id booking) counts
                             else counts) [] bookings"

definition sorted_by_count :: "(string \<times> int) list \<Rightarrow> (string \<times> int) list" where
  "sorted_by_count items = sort_key (\<lambda>x. - snd x) items"

definition popular_hotels :: "store \<Rightarrow> (string \<times> int) list" where
  "popular_hotels s =
     concat (map (\<lambda>(hotel_id, count).
                    case find (\<lambda>h. h_id h = hotel_id) (HOTELS s) of
                      None \<Rightarrow> []
                    | Some hotel \<Rightarrow> [(h_name hotel, count)])
               (sorted_by_count (hotel_booking_counts (BOOKINGS s))))"

record statistics =
  total_bookings :: int
  confirmed_bookings :: int
  pending_bookings :: int
  cancelled_bookings :: int
  total_revenue :: real
  most_popular_hotels :: "(string \<times> int) list"

definition get_booking_statistics :: "store \<Rightarrow> statistics" where
  "get_booking_statistics s =
     \<lparr> total_bookings = int (length (BOOKINGS s)),
       confirmed_bookings = int (length (filter (\<lambda>b. b_status b = ''confirmed'') (BOOKINGS s))),
       pending_bookings = int (length (filter (\<lambda>b. b_status b = ''pending'') (BOOKINGS s))),
       cancelled_bookings = int (length (filter (\<lambda>b. b_status b = ''cancelled'') (BOOKINGS s))),
       total_revenue =
         sum_list (map b_total_price (filter (\<lambda>b. b_status b = ''confirmed'') (BOOKINGS s))),
       most_popular_hotels = take 5 (popular_hotels s) \<rparr>"

section \<open>The workflow graph of \<open>langgraph_agents.py\<close>\<close>

text \<open>
  The state of the workflow is the typed dictionary \<open>HotelBookingState\<close>; every run starts
  with all its keys set. The values of type \<open>Dict\<close> hold data that came through JSON, so
  they are association lists of JSON values, and \<open>d.get(k, default)\<close> and Python's truth
  value of an object are written out.
\<close>

datatype json =
    JNull
  | JBool bool
  | JInt int
  | JFloat real
  | JStr string
  | JList "json list"
  | JDict "(string \<times> json) list"

type_synonym dict = "(string \<times> json) list"

fun truthy :: "json \<Rightarrow> bool" where
  "truthy JNull = False"
| "truthy (JBool b) = b"
| "truthy (JInt n) = (n \<noteq> 0)"
| "truthy (JFloat x) = (x \<noteq> 0)"
| "truthy (JStr s) = (s \<noteq> [])"
| "truthy (JList xs) = (xs \<noteq> [])"
| "truthy (JDict kvs) = (kvs \<noteq> [])"

definition dict_get :: "dict \<Rightarrow> string \<Rightarrow> json \<Rightarrow> json" where
  "dict_get d k dflt = (case map_of d k of None \<Rightarrow> dflt | Some v \<Rightarrow> v)"

record HotelBookingState =
  user_query :: string
  extracted_dates :: dict
  search_parameters :: dict
  search_results :: dict
  selected_hotel :: dict
  guest_info :: dict
  booking_result :: dict
  current_step :: string
  error_message :: string
  workflow_complete :: bool
  debug_info :: "string list"

subsection \<open>The conditional edge functions\<close>

definition should_search_hotels :: "HotelBookingState \<Rightarrow> string" where
  "should_search_hotels state =
     (if error_message state \<noteq> [] then ''error''
      else if truthy (dict_get (search_parameters state) ''has_hotel_intent'' JNull) then ''search''
      else ''end'')"

definition should_check_availability :: "HotelBookingState \<Rightarrow> string" where
  "should_check_availability state =
     (if error_message state \<noteq> [] then ''error''
      else if truthy (dict_get (search_results state) ''hotels'' (JList [])) then ''check_availability''
      else ''end'')"

definition should_proceed_to_booking :: "HotelBookingState \<Rightarrow> string" where
  "should_proceed_to_booking state =
     (if error_message state \<noteq> [] then ''error''
      else if selected_hotel state \<noteq> []
                \<and> truthy (dict_get (guest_info state) ''name'' JNull)
                \<and> truthy (dict_get (guest_info state) ''email'' JNull) then ''book''
      else ''end'')"

subsection \<open>The nodes\<close>

text \<open>
  A node calls the language model and the tools and returns the state with some keys
  replaced. What the outside world answers is not fixed, so a node is a relation between
  the state it receives and a state it may return: the keys it assigns are those of the
  dictionary it returns in the source, with any value the call may have produced; the
  log \<open>debug_info\<close> grows at its end.
\<close>

datatype node =
    date_extractor
  | query_analyzer
  | hotel_searcher
  | availability_checker
  | booking_executor
  | error_handler
  | END

inductive date_extractor_node :: "HotelBookingState \<Rightarrow> HotelBookingState \<Rightarrow> bool" where
  extracted:
    "date_extractor_node state
       (state\<lparr>extracted_dates := dates, current_step := ''date_extraction_complete'',
              debug_info := debug_info state @ trace\<rparr>)"
| fallback:
    "date_extractor_node state
       (state\<lparr>extracted_dates := fallback_dates, current_step := ''date_extraction_fallback'',
              debug_info := debug_info state @ trace\<rparr>)"

inductive query_analyzer_node :: "HotelBookingState \<Rightarrow> HotelBookingState \<Rightarrow> bool" where
  analysed:
    "query_analyzer_node state
       (state\<lparr>search_parameters := search_params, current_step := ''query_analysis_complete'',
              debug_info := debug_info state @ trace\<rparr>)"
| analysis_failed:
    "query_analyzer_node state
       (state\<lparr>error_message := ''Query analysis failed: '' @ e, current_step := ''error'',
              debug_info := debug_info state @ trace\<rparr>)"

inductive hotel_searcher_node :: "HotelBookingState \<Rightarrow> HotelBookingState \<Rightarrow> bool" where
  searched:
    "hotel_searcher_node state
       (state\<lparr>search_results := results, current_step := ''hotel_search_complete'',
              debug_info := debug_info state @ trace\<rparr>)"
| search_failed:
    "hotel_searcher_node state
       (state\<lparr>error_message := ''Hotel search failed: '' @ e, current_step := ''error'',
              debug_info := debug_info state @ trace\<rparr>)"

inductive availability_checker_node :: "HotelBookingState \<Rightarrow> HotelBookingState \<Rightarrow> bool" where
  no_hotels:
    "availability_checker_node state
       (state\<lparr>current_step := ''availability_check_skipped'',
              debug_info := debug_info state @ trace\<rparr>)"
| checked:
    "availability_checker_node state
       (state\<lparr>selected_hotel := hotel @ [(''availability_result'', availability_result),
                                          (''available'', JBool True)],
              current_step := ''availability_check_complete'',
              debug_info := debug_info state @ trace\<rparr>)"
| tool_missing:
    "availability_checker_node state
       (state\<lparr>selected_hotel := hotel, current_step := ''availability_check_skipped'',
              debug_info := debug_info state @ trace\<rparr>)"
| check_failed:
    "availability_checker_node state
       (state\<lparr>error_message := ''Availability check failed: '' @ e, current_step := ''error'',
              debug_info := debug_info state @ trace\<rparr>)"

inductive booking_executor_node :: "HotelBookingState \<Rightarrow> HotelBookingState \<Rightarrow> bool" where
  booked:
    "booking_executor_node state
       (state\<lparr>booking_result := result, workflow_complete := True,
              current_step := ''booking_complete'', debug_info := debug_info state @ trace\<rparr>)"
| booking_failed:
    "booking_executor_node state
       (state\<lparr>error_message := ''Booking failed: '' @ e, current_step := ''error'',
              debug_info := debug_info state @ trace\<rparr>)"

inductive error_handler_node :: "HotelBookingState \<Rightarrow> HotelBookingState \<Rightarrow> bool" where
  handled:
    "error_handler_node state
       (state\<lparr>workflow_complete := True, current_step := ''error_handled'',
              debug_info := debug_info state @ trace\<rparr>)"

subsection \<open>The edges\<close>

text \<open>
  \<open>_create_workflow_graph\<close> gives each conditional edge the dictionary that maps the
  answer of the edge function to the next node.
\<close>

definition query_analyzer_edges :: "string \<Rightarrow> node option" where
  "query_analyzer_edges =
     map_of [(''search'', hotel_searcher), (''error'', error_handler), (''end'', END)]"

definition hotel_searcher_edges :: "string \<Rightarrow> node option" where
  "hotel_searcher_edges =
     map_of [(''check_availability'', availability_checker), (''error'', error_handler),
             (''end'', END)]"

definition availability_checker_edges :: "string \<Rightarrow> node option" where
  "availability_checker_edges =
     map_of [(''book'', booking_executor), (''end'', END), (''error'', error_handler)]"

text \<open>
  One step of the graph runs the current node and follows its outgoing edge, which for a
  conditional edge is chosen on the state the node returned.
\<close>

inductive step :: "node \<times> HotelBookingState \<Rightarrow> node \<times> HotelBookingState \<Rightarrow> bool" where
  from_date_extractor:
    "date_extractor_node state state' \<Longrightarrow> step (date_extractor, state) (query_analyzer, state')"
| from_query_analyzer:
    "query_analyzer_node state state' \<Longrightarrow>
     query_analyzer_edges (should_search_hotels state') = Some n \<Longrightarrow>
     step (query_analyzer, state) (n, state')"
| from_hotel_searcher:
    "hotel_searcher_node state state' \<Longrightarrow>
     hotel_searcher_edges (should_check_availability state') = Some n \<Longrightarrow>
     step (hotel_searcher, state) (n, state')"
| from_availability_checker:
    "availability_checker_node state state' \<Longrightarrow>
     availability_checker_edges (should_proceed_to_booking state') = Some n \<Longrightarrow>
     step (availability_checker, state) (n, state')"
| from_booking_executor:
    "booking_executor_node state state' \<Longrightarrow> step (booking_executor, state) (END, state')"
| from_error_handler:
    "error_handler_node state state' \<Longrightarrow> step (error_handler, state) (END, state')"

text \<open>The initial states of \<open>run_search_workflow\<close> and \<open>run_booking_workflow\<close>.\<close>

definition search_initial_state :: "string \<Rightarrow> HotelBookingState" where
  "search_initial_state query =
     \<lparr> user_query = query, extracted_dates = [], search_parameters = [], search_results = [],
       selected_hotel = [], guest_info = [], booking_result = [], current_step = ''starting'',
       error_message = [], workflow_complete = False, debug_info = [] \<rparr>"

definition booking_initial_state :: "string \<Rightarrow> dict \<Rightarrow> dict \<Rightarrow> HotelBookingState" where
  "booking_initial_state query hotel guest =
     \<lparr> user_query = query, extracted_dates = [],
       search_parameters = [(''has_hotel_intent'', JBool False)],
       search_results = [(''hotels'', JList [JDict hotel])],
       selected_hotel = hotel, guest_info = guest, booking_result = [],
       current_step = ''starting'', error_message = [], workflow_complete = False,
       debug_info = [] \<rparr>"

text \<open>Guest information is complete when both keys hold a true value.\<close>

definition guest_complete :: "dict \<Rightarrow> bool" where
  "guest_complete guest \<longleftrightarrow>
     truthy (dict_get guest ''name'' JNull) \<and> truthy (dict_get guest ''email'' JNull)"

section \<open>Sample data\<close>

text \<open>
  Records of the module's own data (\<open>hotel_1\<close>, \<open>hotel_2\<close>, two of their rooms, the first
  two bookings) and the stores the examples below run on. \<open>room_100\<close> is a room of
  \<open>hotel_1\<close> at 100 a night, \<open>beach_hotel\<close> a hotel with the amenities
  \<open>Beach Access\<close> and \<open>Pool\<close>.
\<close>

definition hotel_1 :: hotel where
  "hotel_1 = \<lparr> h_id = ''hotel_1'', h_name = ''Grand Plaza Hotel'', h_location = ''New York, NY'',
       h_rating = 4.5, h_amenities = [''WiFi'', ''Pool'', ''Gym'', ''Restaurant'', ''Spa''],
       h_price_per_night = 250, h_available_rooms = 15,
       h_description = ''Luxurious hotel in the heart of Manhattan with stunning city views'' \<rparr>"

definition hotel_2 :: hotel where
  "hotel_2 = \<lparr> h_id = ''hotel_2'', h_name = ''Seaside Resort'', h_location = ''Miami, FL'',
       h_rating = 4.2,
       h_amenities = [''WiFi'', ''Beach Access'', ''Pool'', ''Restaurant'', ''Bar''],
       h_price_per_night = 180, h_available_rooms = 8,
       h_description = ''Beautiful beachfront resort with direct ocean access'' \<rparr>"

definition beach_hotel :: hotel where
  "beach_hotel = \<lparr> h_id = ''hotel_b'', h_name = ''Beach Hotel'', h_location = ''Miami, FL'',
       h_rating = 4, h_amenities = [''Beach Access'', ''Pool''],
       h_price_per_night = 120, h_available_rooms = 3, h_description = ''By the sea'' \<rparr>"

definition room_1_1 :: room where
  "room_1_1 = \<lparr> r_id = ''room_1_1'', r_hotel_id = ''hotel_1'', r_room_type = ''Standard'',
       r_capacity = 2, r_price_per_night = 250, r_amenities = [''WiFi'', ''TV'', ''AC''],
       r_available = True \<rparr>"

definition room_2_1 :: room where
  "room_2_1 = \<lparr> r_id = ''room_2_1'', r_hotel_id = ''hotel_2'', r_room_type = ''Ocean View'',
       r_capacity = 2, r_price_per_night = 180, r_amenities = [''WiFi'', ''TV'', ''Balcony''],
       r_available = True \<rparr>"

definition room_100 :: room where
  "room_100 = \<lparr> r_id = ''room_100'', r_hotel_id = ''hotel_1'', r_room_type = ''Standard'',
       r_capacity = 2, r_price_per_night = 100, r_amenities = [''WiFi''],
       r_available = True \<rparr>"

definition booking_001 :: booking where
  "booking_001 = \<lparr> b_id = ''booking_001'', b_hotel_id = ''hotel_1'', b_room_id = ''room_1_1'',
       b_guest_name = ''John Smith'', b_guest_email = ''john.smith@email.com'',
       b_check_in = ''2024-12-20'', b_check_out = ''2024-12-23'', b_total_price = 750,
       b_status = ''confirmed'' \<rparr>"

definition booking_002 :: booking where
  "booking_002 = \<lparr> b_id = ''booking_002'', b_hotel_id = ''hotel_2'', b_room_id = ''room_2_1'',
       b_guest_name = ''Sarah Johnson'', b_guest_email = ''sarah.j@email.com'',
       b_check_in = ''2024-12-25'', b_check_out = ''2024-12-27'', b_total_price = 360,
       b_status = ''confirmed'' \<rparr>"

text \<open>A booking of \<open>room_1_1\<close> over the nights of 25 and 26 July 2025.\<close>

definition booking_july :: booking where
  "booking_july = \<lparr> b_id = ''booking_july'', b_hotel_id = ''hotel_1'', b_room_id = ''room_1_1'',
       b_guest_name = ''Emma Wilson'', b_guest_email = ''emma.wilson@email.com'',
       b_check_in = ''2025-07-25'', b_check_out = ''2025-07-27'', b_total_price = 500,
       b_status = ''confirmed'' \<rparr>"

definition july_store :: store where
  "july_store = \<lparr> HOTELS = [hotel_1, hotel_2], ROOMS = [room_1_1, room_100, room_2_1],
       BOOKINGS = [booking_001, booking_002, booking_july] \<rparr>"

text \<open>The same store after \<open>booking_july\<close> was cancelled.\<close>

definition cancelled_store :: store where
  "cancelled_store = \<lparr> HOTELS = [hotel_1, hotel_2], ROOMS = [room_1_1, room_100, room_2_1],
       BOOKINGS = [booking_001, booking_002, booking_july\<lparr>b_status := ''cancelled''\<rparr>] \<rparr>"

text \<open>A ledger in which \<open>hotel_2\<close> receives its booking before \<open>hotel_1\<close> does.\<close>

definition tie_store :: store where
  "tie_store = \<lparr> HOTELS = [hotel_1, hotel_2], ROOMS = [room_1_1, room_2_1],
       BOOKINGS = [booking_002, booking_001] \<rparr>"

definition beach_store :: store where
  "beach_store = \<lparr> HOTELS = [hotel_1, beach_hotel], ROOMS = [], BOOKINGS = [] \<rparr>"

text \<open>
  A run of the search workflow in which the search finds exactly one hotel and the
  availability check reports a free room: the states after the date extractor, the query
  analyzer, the hotel searcher and the availability checker.
\<close>

definition hotel_2_json :: dict where
  "hotel_2_json = [(''id'', JStr ''hotel_2''), (''name'', JStr ''Seaside Resort''),
                   (''location'', JStr ''Miami, FL''), (''available_rooms'', JInt 8)]"

definition run_dates :: HotelBookingState where
  "run_dates = (search_initial_state ''beach hotel in miami'')
     \<lparr>extracted_dates := [(''check_in'', JStr ''2025-07-25''), (''check_out'', JStr ''2025-07-27''),
                          (''confidence'', JStr ''high'')],
      current_step := ''date_extraction_complete'',
      debug_info := debug_info (search_initial_state ''beach hotel in miami'')
                      @ [''DateExtractor processing'', ''Extracted'']\<rparr>"

definition run_analysed :: HotelBookingState where
  "run_analysed = run_dates
     \<lparr>search_parameters := [(''has_hotel_intent'', JBool True),
                            (''intent_type'', JStr ''hotel_search'')],
      current_step := ''query_analysis_complete'',
      debug_info := debug_info run_dates @ [''Query Analyzer processing'', ''Analysis complete'']\<rparr>"

definition run_searched :: HotelBookingState where
  "run_searched = run_analysed
     \<lparr>search_results := [(''hotels'', JList [JDict hotel_2_json]),
                         (''message'', JStr ''Found 1 hotels''), (''type'', JStr ''hotel_results'')],
      current_step := ''hotel_search_complete'',
      debug_info := debug_info run_analysed @ [''Executing 1 hotel search tool calls'']\<rparr>"

definition run_checked :: HotelBookingState where
  "run_checked = run_searched
     \<lparr>selected_hotel := hotel_2_json @
         [(''availability_result'', JDict [(''available_rooms'', JList [JDict [(''id'', JStr ''room_2_1'')]])]),
          (''available'', JBool True)],
      current_step := ''availability_check_complete'',
      debug_info := debug_info run_searched @ [''Availability check complete'']\<rparr>"

text \<open>
  Two notions the statements about the statistics use. \<open>first_seen\<close> lists the distinct
  elements of a list in the order of their first occurrence. \<open>ranked_by_count_then_id\<close>
  is the ranking as the specification words it: counts descending, and among equal
  counts the hotel identifiers ascending.
\<close>

fun first_seen :: "'a list \<Rightarrow> 'a list" where
  "first_seen [] = []"
| "first_seen (x # xs) = x # filter (\<lambda>y. y \<noteq> x) (first_seen xs)"

definition ranked_by_count_then_id :: "(string \<times> int) list \<Rightarrow> bool" where
  "ranked_by_count_then_id ranking =
     sorted_wrt (\<lambda>(hotel_id, count) (hotel_id', count').
                   count > count' \<or> (count = count' \<and> hotel_id \<le> hotel_id')) ranking"

text \<open>
  A ledger with a pending and a cancelled booking beside the two confirmed ones; the
  booking of \<open>hotel_2\<close> comes first.
\<close>

definition booking_pending :: booking where
  "booking_pending = \<lparr> b_id = ''booking_p'', b_hotel_id = ''hotel_1'', b_room_id = ''room_100'',
       b_guest_name = ''Emma Wilson'', b_guest_email = ''emma.wilson@email.com'',
       b_check_in = ''2025-02-10'', b_check_out = ''2025-02-12'', b_total_price = 200,
       b_status = ''pending'' \<rparr>"

definition booking_cancelled :: booking where
  "booking_cancelled = \<lparr> b_id = ''booking_c'', b_hotel_id = ''hotel_2'', b_room_id = ''room_2_1'',
       b_guest_name = ''David Brown'', b_guest_email = ''david.brown@email.com'',
       b_check_in = ''2024-12-30'', b_check_out = ''2025-01-02'', b_total_price = 540,
       b_status = ''cancelled'' \<rparr>"

definition stats_store :: store where
  "stats_store = \<lparr> HOTELS = [hotel_1, hotel_2], ROOMS = [room_1_1, room_100, room_2_1],
       BOOKINGS = [booking_002, booking_cancelled, booking_001, booking_pending] \<rparr>"

text \<open>
  Two notions the statements about conflicts use. A date string is canonical when it is
  the zero-padded ten-character form of a date, the form \<open>strftime("%Y-%m-%d")\<close>
  writes for a year of four digits. \<open>date_ranges_overlap\<close> is the overlap of the
  specification, taken on the days that the four strings denote: the request from
  \<open>check_in\<close> to \<open>check_out\<close> and the booking, both half-open.
\<close>

fun canonical_date :: "string \<Rightarrow> bool" where
  "canonical_date [y1, y2, y3, y4, s1, m1, m2, s2, d1, d2] =
     (is_digit y1 \<and> is_digit y2 \<and> is_digit y3 \<and> is_digit y4 \<and> s1 = CHR ''-''
      \<and> is_digit m1 \<and> is_digit m2 \<and> s2 = CHR ''-'' \<and> is_digit d1 \<and> is_digit d2
      \<and> strptime [y1, y2, y3, y4, s1, m1, m2, s2, d1, d2] \<noteq> None)"
| "canonical_date _ = False"

definition date_ranges_overlap :: "string \<Rightarrow> string \<Rightarrow> booking \<Rightarrow> bool" where
  "date_ranges_overlap check_in check_out b =
     (case (strptime check_in, strptime check_out,
            strptime (b_check_in b), strptime (b_check_out b)) of
        (Some check_in_date, Some check_out_date, Some b_in, Some b_out) \<Rightarrow>
          overlaps (check_in_date, check_out_date) (b_in, b_out)
      | _ \<Rightarrow> False)"

text \<open>The number that a string of digits writes.\<close>

definition digits_value :: "string \<Rightarrow> int" where
  "digits_value digits = foldl (\<lambda>v c. 10 * v + digit_val c) 0 digits"



section \<open>Evaluation of the sample data\<close>

lemmas date_defs = strptime_def is_digit_def digit_val_def valid_date_def ymd2ord_def
  days_before_year_def days_before_month_def days_in_month_def is_leap_def

lemmas data_defs = hotel_1_def hotel_2_def beach_hotel_def room_1_1_def room_2_1_def
  room_100_def booking_001_def booking_002_def booking_july_def

lemmas conflict_defs = conflicting_def active_def overlaps_def

lemma strptime_july [simp]:
  "strptime ''2025-07-25'' = Some 739457"
  "strptime ''2025-07-26'' = Some 739458"
  "strptime ''2025-07-27'' = Some 739459"
  "strptime ''2025-07-28'' = Some 739460"
  "strptime ''2025-07-29'' = Some 739461"
  by (simp_all add: date_defs)

lemma strptime_unpadded [simp]:
  "strptime ''2025-7-26'' = Some 739458"
  "strptime ''2025-7-28'' = Some 739460"
  by (simp_all add: date_defs)

lemma strptime_slashes [simp]: "strptime ''2025/07/26'' = None"
  by (simp add: date_defs)

lemma find_hotel_1 [simp]:
  "find (\<lambda>h. h_id h = ''hotel_1'') (HOTELS july_store) = Some hotel_1"
  by (simp add: july_store_def data_defs)

lemma find_room_1_1 [simp]:
  "find (\<lambda>r. r_id r = ''room_1_1'' \<and> r_hotel_id r = ''hotel_1'') (ROOMS july_store)
     = Some room_1_1"
  by (simp add: july_store_def data_defs)

lemma find_room_100 [simp]:
  "find (\<lambda>r. r_id r = ''room_100'' \<and> r_hotel_id r = ''hotel_1'') (ROOMS july_store)
     = Some room_100"
  by (simp add: july_store_def data_defs)

lemma rooms_available [simp]: "r_available room_1_1" "r_available room_100"
  by (simp_all add: data_defs)

section \<open>The overlap predicate is symmetric\<close>

text \<open>
  Claim C3. For any two ranges \<open>A\<close> and \<open>B\<close>, \<open>overlaps A B\<close> equals \<open>overlaps B A\<close>: the
  answer does not depend on which range is the existing booking and which the request.
  This holds in every linear order, so in particular on the date strings the source
  compares.
\<close>

theorem overlaps_symmetric: "overlaps A B = overlaps B A"
  by (cases A; cases B) (auto simp: overlaps_def)

section \<open>\<open>book_hotel\<close> leaves the store alone when it fails\<close>

text \<open>
  Claim C4. Whatever the arguments, when \<open>book_hotel\<close> answers with an error (one of the
  five error messages, or the conflict error) the store it leaves is the store it
  received: hotels, rooms and ledger are unchanged. Only the confirmation appends a
  booking, the one it reports, at the end of the ledger, and it changes nothing else.
\<close>

theorem book_hotel_atomic_on_failure:
  assumes "book_hotel s booking_id hotel_id room_id guest_name guest_email check_in check_out
             = (resp, s')"
  shows "case resp of
           BookError msg \<Rightarrow>
             s' = s \<and> msg \<in> set [''Hotel not found'', ''Room not found'', ''Room is not available'',
                                  ''Invalid date format. Use YYYY-MM-DD'', ''Invalid date range'']
         | BookConflict msg dates \<Rightarrow> s' = s
         | BookConfirmed booking hotel room nights msg \<Rightarrow>
             s' = s\<lparr>BOOKINGS := BOOKINGS s @ [booking]\<rparr>"
  using assms
  by (auto simp: book_hotel_def Let_def split: option.splits if_splits)

lemma july_conflict:
  "book_hotel july_store ''n1'' ''hotel_1'' ''room_1_1'' ''Ann'' ''ann@example.org''
       ''2025-07-26'' ''2025-07-28''
     = (BookConflict ''Room is not available for these dates due to existing bookings''
          [''2025-07-25 to 2025-07-27''], july_store)"
  by (simp add: book_hotel_def Let_def conflict_defs july_store_def data_defs)

theorem book_hotel_atomic_on_failure_witness:
  "book_hotel july_store ''n1'' ''hotel_1'' ''room_1_1'' ''Ann'' ''ann@example.org''
       ''2025-07-26'' ''2025-07-28''
     = (BookConflict ''Room is not available for these dates due to existing bookings''
          [''2025-07-25 to 2025-07-27''], july_store)
   \<and> BOOKINGS july_store = [booking_001, booking_002, booking_july]"
  using book_hotel_atomic_on_failure [OF july_conflict] july_conflict
  by (simp add: july_store_def)

section \<open>Nights and price of a confirmed booking\<close>

text \<open>
  Claim C5. When \<open>book_hotel\<close> confirms, both dates parsed, \<open>nights\<close> is the number of days
  from the check-in date to the check-out date, and the total price of the booking it
  created (the last of the ledger) is the nightly price of the room found times \<open>nights\<close>.
  A room at 100 a night from 2025-07-25 to 2025-07-28 gives 3 nights and 300.
\<close>

theorem book_hotel_price:
  assumes "book_hotel s booking_id hotel_id room_id guest_name guest_email check_in check_out
             = (BookConfirmed booking hotel room nights msg, s')"
  shows "\<exists>check_in_date check_out_date.
           strptime check_in = Some check_in_date \<and> strptime check_out = Some check_out_date
           \<and> nights = check_out_date - check_in_date
           \<and> find (\<lambda>r. r_id r = room_id \<and> r_hotel_id r = hotel_id) (ROOMS s) = Some room
           \<and> b_total_price booking = r_price_per_night room * real_of_int nights
           \<and> BOOKINGS s' = BOOKINGS s @ [booking]"
  using assms
  by (auto simp: book_hotel_def Let_def split: option.splits if_splits)

lemma room_100_booked:
  "book_hotel july_store ''n1'' ''hotel_1'' ''room_100'' ''Ann'' ''ann@example.org''
       ''2025-07-25'' ''2025-07-28''
     = (BookConfirmed
          \<lparr> b_id = ''n1'', b_hotel_id = ''hotel_1'', b_room_id = ''room_100'',
            b_guest_name = ''Ann'', b_guest_email = ''ann@example.org'',
            b_check_in = ''2025-07-25'', b_check_out = ''2025-07-28'',
            b_total_price = 300, b_status = ''confirmed'' \<rparr>
          hotel_1 room_100 3 ''Booking confirmed! Your reservation ID is n1'',
        july_store\<lparr>BOOKINGS := BOOKINGS july_store @
          [\<lparr> b_id = ''n1'', b_hotel_id = ''hotel_1'', b_room_id = ''room_100'',
             b_guest_name = ''Ann'', b_guest_email = ''ann@example.org'',
             b_check_in = ''2025-07-25'', b_check_out = ''2025-07-28'',
             b_total_price = 300, b_status = ''confirmed'' \<rparr>]\<rparr>)"
  by (simp add: book_hotel_def Let_def conflict_defs july_store_def data_defs)

theorem book_hotel_price_witness:
  "(\<exists>booking s'.
      book_hotel july_store ''n1'' ''hotel_1'' ''room_100'' ''Ann'' ''ann@example.org''
          ''2025-07-25'' ''2025-07-28''
        = (BookConfirmed booking hotel_1 room_100 3
             ''Booking confirmed! Your reservation ID is n1'', s')
      \<and> b_total_price booking = 300)
   \<and> r_price_per_night room_100 = 100"
  using book_hotel_price [OF room_100_booked] room_100_booked
  by (simp add: room_100_def)

section \<open>A date that does not parse\<close>

text \<open>
  Claim C10. When the hotel exists, the room exists in that hotel and is flagged
  available, and the check-in or the check-out string is not a date that \<open>strptime\<close>
  accepts, \<open>book_hotel\<close> returns the error \<open>Invalid date format. Use YYYY-MM-DD\<close> as a
  value and leaves the store as it was. The ledger plays no part: the answer is the same
  whatever bookings it holds, so the overlap test is never reached.
\<close>

theorem book_hotel_invalid_format:
  assumes "find (\<lambda>h. h_id h = hotel_id) (HOTELS s) = Some hotel"
    and "find (\<lambda>r. r_id r = room_id \<and> r_hotel_id r = hotel_id) (ROOMS s) = Some room"
    and "r_available room"
    and "strptime check_in = None \<or> strptime check_out = None"
  shows "book_hotel (s\<lparr>BOOKINGS := ledger\<rparr>) booking_id hotel_id room_id guest_name guest_email
           check_in check_out
         = (BookError ''Invalid date format. Use YYYY-MM-DD'', s\<lparr>BOOKINGS := ledger\<rparr>)"
  using assms
  by (auto simp: book_hotel_def Let_def split: option.splits)

theorem book_hotel_invalid_format_witness:
  "find (\<lambda>h. h_id h = ''hotel_1'') (HOTELS july_store) = Some hotel_1
   \<and> find (\<lambda>r. r_id r = ''room_1_1'' \<and> r_hotel_id r = ''hotel_1'') (ROOMS july_store)
       = Some room_1_1
   \<and> r_available room_1_1
   \<and> strptime ''2025/07/26'' = None
   \<and> book_hotel july_store ''n1'' ''hotel_1'' ''room_1_1'' ''Ann'' ''ann@example.org''
         ''2025/07/26'' ''2025-07-28''
       = (BookError ''Invalid date format. Use YYYY-MM-DD'', july_store)"
  using book_hotel_invalid_format [of "''hotel_1''" july_store hotel_1 "''room_1_1''" room_1_1
      "''2025/07/26''" "''2025-07-28''" "BOOKINGS july_store" "''n1''" "''Ann''"
      "''ann@example.org''"]
  by simp

section \<open>Cancelling twice\<close>

lemma find_update_first:
  "find P xs = Some x \<Longrightarrow> P (f x) \<Longrightarrow> find P (update_first P f xs) = Some (f x)"
  by (induction xs) (auto split: if_splits)

lemma find_distinct_member:
  "x \<in> set xs \<Longrightarrow> distinct (map key xs) \<Longrightarrow> find (\<lambda>y. key y = key x) xs = Some x"
  by (induction xs) (auto simp: image_iff)

lemma cancel_booking_cancelled:
  "find (\<lambda>b. b_id b = booking_id) (BOOKINGS s) = Some booking \<Longrightarrow>
   b_status booking = ''cancelled'' \<Longrightarrow>
   cancel_booking s booking_id = (CancelError ''Booking is already cancelled'', s)"
  by (simp add: cancel_booking_def)

lemma cancel_booking_then_found:
  assumes "cancel_booking s booking_id = (Cancelled i prev new msg refund, s')"
  shows "\<exists>booking. find (\<lambda>b. b_id b = booking_id) (BOOKINGS s') = Some booking
           \<and> b_status booking = ''cancelled''"
proof (cases "find (\<lambda>b. b_id b = booking_id) (BOOKINGS s)")
  case None
  with assms show ?thesis by (simp add: cancel_booking_def)
next
  case (Some booking)
  then have found: "b_id booking = booking_id"
    by (auto simp: find_Some_iff)
  from Some assms have s': "BOOKINGS s' = update_first (\<lambda>b. b_id b = booking_id)
      (\<lambda>b. b\<lparr>b_status := ''cancelled''\<rparr>) (BOOKINGS s)"
    by (auto simp: cancel_booking_def Let_def split: if_splits)
  have "find (\<lambda>b. b_id b = booking_id) (BOOKINGS s')
          = Some (booking\<lparr>b_status := ''cancelled''\<rparr>)"
    unfolding s' using Some found by (intro find_update_first) simp_all
  then show ?thesis by simp
qed

text \<open>
  Claim C6. \<open>cancel_booking\<close> looks the booking up by its identifier. When the booking it
  finds is already cancelled, it returns the error \<open>Booking is already cancelled\<close>, which
  carries no refund, and the store is untouched: the status stays, and no room changes
  its \<open>available\<close> flag. With identifiers that are unique in the ledger this is so for
  every cancelled booking of the ledger. An identifier that no booking has gives
  \<open>Booking not found\<close>, again with the store untouched. In particular a cancellation
  that succeeded cannot succeed a second time.
\<close>

theorem cancel_booking_idempotent:
  "(\<forall>s booking_id booking.
      find (\<lambda>b. b_id b = booking_id) (BOOKINGS s) = Some booking
        \<and> b_status booking = ''cancelled''
      \<longrightarrow> cancel_booking s booking_id = (CancelError ''Booking is already cancelled'', s))
   \<and> (\<forall>s booking.
      booking \<in> set (BOOKINGS s) \<and> distinct (map b_id (BOOKINGS s))
        \<and> b_status booking = ''cancelled''
      \<longrightarrow> cancel_booking s (b_id booking) = (CancelError ''Booking is already cancelled'', s))
   \<and> (\<forall>s booking_id.
      find (\<lambda>b. b_id b = booking_id) (BOOKINGS s) = None
      \<longrightarrow> cancel_booking s booking_id = (CancelError ''Booking not found'', s))
   \<and> (\<forall>s booking_id i prev new msg refund s'.
      cancel_booking s booking_id = (Cancelled i prev new msg refund, s')
      \<longrightarrow> cancel_booking s' booking_id = (CancelError ''Booking is already cancelled'', s'))"
proof (intro conjI allI impI)
  fix s :: store and booking_id booking
  assume "find (\<lambda>b. b_id b = booking_id) (BOOKINGS s) = Some booking
            \<and> b_status booking = ''cancelled''"
  then show "cancel_booking s booking_id = (CancelError ''Booking is already cancelled'', s)"
    by (simp add: cancel_booking_cancelled)
next
  fix s :: store and booking
  assume a: "booking \<in> set (BOOKINGS s) \<and> distinct (map b_id (BOOKINGS s))
               \<and> b_status booking = ''cancelled''"
  then have "find (\<lambda>b. b_id b = b_id booking) (BOOKINGS s) = Some booking"
    by (simp add: find_distinct_member)
  with a show "cancel_booking s (b_id booking) = (CancelError ''Booking is already cancelled'', s)"
    by (simp add: cancel_booking_cancelled)
next
  fix s :: store and booking_id
  assume "find (\<lambda>b. b_id b = booking_id) (BOOKINGS s) = None"
  then show "cancel_booking s booking_id = (CancelError ''Booking not found'', s)"
    by (simp add: cancel_booking_def)
next
  fix s s' :: store and booking_id i prev new msg refund
  assume "cancel_booking s booking_id = (Cancelled i prev new msg refund, s')"
  from cancel_booking_then_found [OF this]
  show "cancel_booking s' booking_id = (CancelError ''Booking is already cancelled'', s')"
    by (auto simp: cancel_booking_cancelled)
qed

lemma july_cancelled:
  "cancel_booking july_store ''booking_july''
     = (Cancelled ''booking_july'' ''confirmed'' ''cancelled''
          ''Booking booking_july has been successfully cancelled'' 500, cancelled_store)"
  by (simp add: cancel_booking_def Let_def july_store_def cancelled_store_def data_defs)

lemma find_cancelled:
  "find (\<lambda>b. b_id b = ''booking_july'') (BOOKINGS cancelled_store)
     = Some (booking_july\<lparr>b_status := ''cancelled''\<rparr>)"
  "find (\<lambda>b. b_id b = ''booking_999'') (BOOKINGS cancelled_store) = None"
  by (simp_all add: cancelled_store_def data_defs)

theorem cancel_booking_idempotent_witness:
  "cancel_booking july_store ''booking_july''
     = (Cancelled ''booking_july'' ''confirmed'' ''cancelled''
          ''Booking booking_july has been successfully cancelled'' 500, cancelled_store)
   \<and> cancel_booking cancelled_store ''booking_july''
       = (CancelError ''Booking is already cancelled'', cancelled_store)
   \<and> cancel_booking cancelled_store ''booking_999''
       = (CancelError ''Booking not found'', cancelled_store)
   \<and> map r_available (ROOMS cancelled_store) = [True, True, True]"
  using cancel_booking_idempotent july_cancelled find_cancelled
  by (simp add: cancelled_store_def data_defs)

section \<open>The amenity filter of \<open>search_hotels\<close>\<close>

lemma amenity_match_iff:
  "amenity_match desired tags \<longleftrightarrow> (\<exists>d \<in> set desired. \<exists>t \<in> set tags. sublist d t)"
  by (induction desired) (auto simp: list_ex_iff)

text \<open>
  What the string methods do. The pieces of \<open>split\<close> hold no separator and, joined by
  the separator, give the string back. \<open>strip\<close> cuts white space, and only white
  space, from both ends, up to the first and the last character that is not white space.
  \<open>lower\<close> keeps the length and leaves a lowercased string as it is.
\<close>

lemma split_not_empty: "split sep s \<noteq> []"
  by (induction s) (auto split: list.splits)

lemma split_pieces: "piece \<in> set (split sep s) \<Longrightarrow> sep \<notin> set piece"
  by (induction s arbitrary: piece) (auto split: if_splits list.splits)

lemma split_join: "concat (map (\<lambda>piece. sep # piece) (split sep s)) = sep # s"
  using split_not_empty [of sep]
  by (induction s) (auto split: list.splits)

lemma strip_cuts_white_space:
  "\<exists>before after. s = before @ strip s @ after
      \<and> list_all is_space before \<and> list_all is_space after"
proof -
  let ?t = "dropWhile is_space s"
  have "s = takeWhile is_space s @ ?t"
    by simp
  moreover have "rev ?t = takeWhile is_space (rev ?t) @ dropWhile is_space (rev ?t)"
    by simp
  then have "?t = strip s @ rev (takeWhile is_space (rev ?t))"
    unfolding strip_def by (metis rev_append rev_rev_ident)
  ultimately have "s = takeWhile is_space s @ strip s @ rev (takeWhile is_space (rev ?t))"
    by simp
  moreover have "list_all is_space (takeWhile is_space s)"
    and "list_all is_space (rev (takeWhile is_space (rev ?t)))"
    by (auto simp: list_all_iff dest: set_takeWhileD)
  ultimately show ?thesis
    by blast
qed

lemma strip_ends:
  assumes "strip s \<noteq> []"
  shows "\<not> is_space (hd (strip s))" and "\<not> is_space (last (strip s))"
proof -
  let ?t = "dropWhile is_space s"
  from assms have nonempty: "dropWhile is_space (rev ?t) \<noteq> []"
    by (simp add: strip_def)
  then have "\<not> is_space (hd (dropWhile is_space (rev ?t)))"
    by (rule hd_dropWhile)
  with nonempty show "\<not> is_space (last (strip s))"
    by (simp add: strip_def last_rev)
  from nonempty have t: "?t \<noteq> []"
    by (metis dropWhile.simps(1) rev_is_Nil_conv)
  then have first: "\<not> is_space (hd ?t)"
    by (rule hd_dropWhile)
  have "rev ?t = takeWhile is_space (rev ?t) @ dropWhile is_space (rev ?t)"
    by simp
  then have "?t = strip s @ rev (takeWhile is_space (rev ?t))"
    unfolding strip_def by (metis rev_append rev_rev_ident)
  with assms have "hd ?t = hd (strip s)"
    by (metis hd_append2)
  with first show "\<not> is_space (hd (strip s))"
    by simp
qed

lemma lower_char_idem: "lower_char (lower_char c) = lower_char c"
proof -
  have "of_char (char_of (of_char c + (32::nat))) = of_char c + (32::nat)"
    if "(of_char c :: nat) \<le> 222" 
    using that by (simp add: of_char_of)
  then show ?thesis
    by (auto simp: lower_char_def Let_def)
qed

lemma lower_facts: "length (lower s) = length s" "lower (lower s) = lower s"
  by (simp_all add: lower_def lower_char_idem)

lemma string_examples:
  "split CHR '','' '' Spa , BEACH'' = ['' Spa '', '' BEACH'']"
  "split CHR '','' ''spa,,beach,'' = [''spa'', [], ''beach'', []]"
  "split CHR '','' [] = [[]]"
  "strip '' Spa '' = ''Spa''" "strip '' BEACH'' = ''BEACH''"
  "strip [CHR 0x09, CHR ''a'', CHR '' '', CHR ''b'', CHR 0x0A] = ''a b''"
  "strip [CHR 0xA0, CHR 0x85] = []"
  "lower ''Spa'' = ''spa''" "lower ''BEACH'' = ''beach''"
  "lower ''Beach Access'' = ''beach access''" "lower ''Pool'' = ''pool''"
  "lower [CHR 0xD6, CHR 0xD7, CHR 0xDF, CHR ''1''] = [CHR 0xF6, CHR 0xD7, CHR 0xDF, CHR ''1'']"
  by code_simp+

lemma amenity_list_examples:
  "amenity_list_of '' Spa , BEACH'' = [''spa'', ''beach'']"
  "amenity_list_of ''spa,beach'' = [''spa'', ''beach'']"
  "amenity_list_of '' , '' = []"
  by code_simp+

text \<open>The location filter, in the terms of the string methods.\<close>

lemma location_match_iff:
  "location_match location hotel \<longleftrightarrow>
     sublist (strip (lower location)) (lower (h_location hotel))
     \<or> (\<exists>part \<in> set (split CHR '','' (strip (lower location))).
           strip part \<noteq> [] \<and> sublist (strip part) (lower (h_location hotel)))
     \<or> sublist (strip (hd (split CHR '','' (lower (h_location hotel)))))
           (strip (lower location))"
proof -
  have "(case split CHR '','' (lower (h_location hotel)) of [] \<Rightarrow> [] | p # _ \<Rightarrow> p)
          = hd (split CHR '','' (lower (h_location hotel)))"
    using split_not_empty [of "CHR '',''" "lower (h_location hotel)"]
    by (simp split: list.splits)
  then show ?thesis
    by (auto simp: location_match_def Let_def list_ex_iff)
qed

text \<open>
  Claim C7. The requested terms are the pieces of the \<open>amenities\<close> argument between
  commas that are not blank, each stripped and lowercased. When there is at least one, a
  hotel is in the answer exactly when it is in the inventory, passes the location filter
  (no location given, or one that matches the location of the hotel loosely), the rating
  and the price filter, and some requested term is contained in the lowercased form of
  some amenity tag of the hotel: one matching term is enough, and the case of neither
  side matters. A hotel with the tags \<open>Beach Access\<close> and \<open>Pool\<close> is found by \<open>spa,beach\<close>,
  however the two terms are capitalised and spaced, although nothing matches \<open>spa\<close>.
\<close>

theorem search_hotels_amenities_or:
  assumes "\<exists>piece \<in> set (split CHR '','' amenities). strip piece \<noteq> []"
  shows "hotel \<in> set (result_hotels (search_hotels s location min_rating max_price amenities))
     \<longleftrightarrow> hotel \<in> set (HOTELS s)
         \<and> (location = [] \<or> strip location = []
              \<or> sublist (strip (lower location)) (lower (h_location hotel))
              \<or> (\<exists>part \<in> set (split CHR '','' (strip (lower location))).
                    strip part \<noteq> [] \<and> sublist (strip part) (lower (h_location hotel)))
              \<or> sublist (strip (hd (split CHR '','' (lower (h_location hotel)))))
                    (strip (lower location)))
         \<and> min_rating \<le> h_rating hotel
         \<and> h_price_per_night hotel \<le> max_price
         \<and> (\<exists>piece \<in> set (split CHR '','' amenities).
              strip piece \<noteq> []
              \<and> (\<exists>tag \<in> set (h_amenities hotel). sublist (lower (strip piece)) (lower tag)))"
proof -
  from assms have "amenity_list_of amenities \<noteq> []"
    by (auto simp: amenity_list_of_def filter_empty_conv)
  moreover have "(\<exists>requested \<in> set (amenity_list_of amenities).
                    \<exists>tag \<in> set (h_amenities hotel). sublist requested (lower tag))
      \<longleftrightarrow> (\<exists>piece \<in> set (split CHR '','' amenities).
              strip piece \<noteq> []
              \<and> (\<exists>tag \<in> set (h_amenities hotel). sublist (lower (strip piece)) (lower tag)))"
    by (auto simp: amenity_list_of_def)
  ultimately have "hotel \<in> set (result_hotels (search_hotels s location min_rating max_price
                                     amenities))
     \<longleftrightarrow> hotel \<in> set (HOTELS s)
         \<and> (location = [] \<or> strip location = [] \<or> location_match location hotel)
         \<and> min_rating \<le> h_rating hotel
         \<and> h_price_per_night hotel \<le> max_price
         \<and> (\<exists>piece \<in> set (split CHR '','' amenities).
              strip piece \<noteq> []
              \<and> (\<exists>tag \<in> set (h_amenities hotel). sublist (lower (strip piece)) (lower tag)))"
    by (auto simp: search_hotels_def Let_def hotel_selected_def amenity_match_iff)
  then show ?thesis
    unfolding location_match_iff by blast
qed

text \<open>Without a requested term the amenities of a hotel play no part.\<close>

lemma search_hotels_no_amenities:
  assumes "\<not> (\<exists>piece \<in> set (split CHR '','' amenities). strip piece \<noteq> [])"
  shows "hotel \<in> set (result_hotels (search_hotels s location min_rating max_price amenities))
     \<longleftrightarrow> hotel \<in> set (HOTELS s)
         \<and> (location = [] \<or> strip location = [] \<or> location_match location hotel)
         \<and> min_rating \<le> h_rating hotel
         \<and> h_price_per_night hotel \<le> max_price"
proof -
  from assms have "amenity_list_of amenities = []"
    by (auto simp: amenity_list_of_def filter_empty_conv)
  then show ?thesis
    by (auto simp: search_hotels_def Let_def hotel_selected_def)
qed

lemma spa_not_contained:
  "\<not> sublist ''spa'' ''beach access''" "\<not> sublist ''spa'' ''pool''"
  by (simp_all add: sublist_Cons_right)

lemma beach_contained: "sublist ''beach'' ''beach access''"
  by (simp add: sublist_Cons_right)

lemma beach_store_searches:
  "search_hotels beach_store [] 0 1000 '' Spa , BEACH'' = SearchResult [hotel_1, beach_hotel] 2"
  "search_hotels beach_store [] 0 1000 ''sauna,Beach'' = SearchResult [beach_hotel] 1"
  "search_hotels beach_store [] 0 1000 ''sauna'' = SearchResult [] 0"
  by code_simp+

theorem search_hotels_amenities_or_witness:
  "filter (\<lambda>piece. strip piece \<noteq> []) (split CHR '','' '' Spa , BEACH'') = ['' Spa '', '' BEACH'']
   \<and> beach_hotel \<in> set (result_hotels (search_hotels beach_store [] 0 1000 '' Spa , BEACH''))
   \<and> h_amenities beach_hotel = [''Beach Access'', ''Pool'']
   \<and> lower (strip '' Spa '') = ''spa''
   \<and> \<not> (\<exists>tag \<in> set (h_amenities beach_hotel). sublist ''spa'' (lower tag))
   \<and> sublist (lower (strip '' BEACH'')) (lower ''Beach Access'')"
  using search_hotels_amenities_or [of "'' Spa , BEACH''" beach_hotel beach_store "[]" 0 1000]
    spa_not_contained beach_contained
  by (simp add: string_examples beach_store_def beach_hotel_def)

section \<open>The workflow does not book without guest details\<close>

lemma should_proceed_to_booking_book:
  "should_proceed_to_booking state = ''book'' \<longleftrightarrow>
     error_message state = [] \<and> selected_hotel state \<noteq> [] \<and> guest_complete (guest_info state)"
  by (simp add: should_proceed_to_booking_def guest_complete_def)

lemma should_proceed_to_booking_range:
  "should_proceed_to_booking state \<in> {''book'', ''end'', ''error''}"
  by (simp add: should_proceed_to_booking_def)

text \<open>No node assigns the key \<open>guest_info\<close>.\<close>

lemma step_guest_info:
  assumes "step (n, state) (n', state')"
  shows "guest_info state' = guest_info state"
  using assms
  by (cases rule: step.cases)
     (auto elim!: date_extractor_node.cases query_analyzer_node.cases hotel_searcher_node.cases
        availability_checker_node.cases booking_executor_node.cases error_handler_node.cases)

lemma steps_guest_info:
  assumes "step\<^sup>*\<^sup>* c c'"
  shows "guest_info (snd c') = guest_info (snd c)"
  using assms
proof (induction rule: rtranclp_induct)
  case base
  show ?case by simp
next
  case (step c' c'')
  obtain m a m' b where "c' = (m, a)" and "c'' = (m', b)"
    by (metis surj_pair)
  with step.hyps(2) have "guest_info (snd c'') = guest_info (snd c')"
    by (auto dest: step_guest_info)
  with step.IH show ?case by simp
qed

text \<open>The booking executor is entered only on the answer \<open>book\<close>.\<close>

lemma step_to_booking_executor:
  assumes "step (n, state) (booking_executor, state')"
  shows "should_proceed_to_booking state' = ''book''"
  using assms
  by (cases rule: step.cases)
     (auto simp: query_analyzer_edges_def hotel_searcher_edges_def
        availability_checker_edges_def should_search_hotels_def should_check_availability_def
        should_proceed_to_booking_def split: if_splits)

lemma never_booking_executor:
  assumes "\<not> guest_complete (guest_info state0)"
    and "step\<^sup>*\<^sup>* (date_extractor, state0) (n, state)"
  shows "n \<noteq> booking_executor"
  using assms(2)
proof (cases rule: rtranclp.cases)
  case rtrancl_refl
  then show ?thesis by simp
next
  case (rtrancl_into_rtrancl c)
  obtain m mid where c: "c = (m, mid)" by (cases c)
  from rtrancl_into_rtrancl(1) have "guest_info mid = guest_info state0"
    using steps_guest_info [of "(date_extractor, state0)" c] by (simp add: c)
  moreover from rtrancl_into_rtrancl(2) have "guest_info state = guest_info mid"
    by (simp add: c step_guest_info)
  ultimately have "\<not> guest_complete (guest_info state)"
    using assms(1) by simp
  then have "should_proceed_to_booking state \<noteq> ''book''"
    by (simp add: should_proceed_to_booking_book)
  with rtrancl_into_rtrancl(2) show ?thesis
    by (auto simp: c dest: step_to_booking_executor)
qed

text \<open>
  Claim C9. \<open>should_proceed_to_booking\<close> answers \<open>book\<close> only when there is no error
  message, a selected hotel is present and the guest information holds both a name and
  an email with a true value (a non-empty string); otherwise it answers \<open>end\<close> or
  \<open>error\<close>. No node changes the guest information, so in a run that starts at the date
  extractor with guest information lacking a name or an email, whatever the language
  model and the tools answer, no configuration is at the booking executor and the edge
  function never answers \<open>book\<close>. The search-only workflow starts with empty guest
  information, so this holds for each of its runs, also when one hotel is found. A node
  that raises ends the run and adds no configuration.
\<close>

theorem workflow_booking_gate:
  "(\<forall>state. should_proceed_to_booking state = ''book'' \<longrightarrow>
      error_message state = [] \<and> selected_hotel state \<noteq> [] \<and> guest_complete (guest_info state))
   \<and> (\<forall>state. should_proceed_to_booking state \<noteq> ''book'' \<longrightarrow>
      should_proceed_to_booking state = ''end'' \<or> should_proceed_to_booking state = ''error'')
   \<and> (\<forall>state0 n state.
        \<not> guest_complete (guest_info state0)
          \<and> step\<^sup>*\<^sup>* (date_extractor, state0) (n, state)
        \<longrightarrow> n \<noteq> booking_executor \<and> should_proceed_to_booking state \<noteq> ''book'')
   \<and> (\<forall>query n state.
        step\<^sup>*\<^sup>* (date_extractor, search_initial_state query) (n, state)
        \<longrightarrow> n \<noteq> booking_executor)"
proof -
  have book: "\<forall>state. should_proceed_to_booking state = ''book'' \<longrightarrow>
      error_message state = [] \<and> selected_hotel state \<noteq> [] \<and> guest_complete (guest_info state)"
    by (simp add: should_proceed_to_booking_book)
  have other: "\<forall>state. should_proceed_to_booking state \<noteq> ''book'' \<longrightarrow>
      should_proceed_to_booking state = ''end'' \<or> should_proceed_to_booking state = ''error''"
    using should_proceed_to_booking_range by auto
  have run: "n \<noteq> booking_executor \<and> should_proceed_to_booking state \<noteq> ''book''"
    if a: "\<not> guest_complete (guest_info state0)
             \<and> step\<^sup>*\<^sup>* (date_extractor, state0) (n, state)"
    for state0 state :: HotelBookingState and n
  proof
    from a show "n \<noteq> booking_executor"
      by (auto dest: never_booking_executor)
    from a have "guest_info state = guest_info state0"
      using steps_guest_info [of "(date_extractor, state0)" "(n, state)"] by simp
    with a show "should_proceed_to_booking state \<noteq> ''book''"
      by (simp add: should_proceed_to_booking_book)
  qed
  have search: "n \<noteq> booking_executor"
    if "step\<^sup>*\<^sup>* (date_extractor, search_initial_state query) (n, state)"
    for query n state
  proof -
    have "\<not> guest_complete (guest_info (search_initial_state query))"
      by (simp add: search_initial_state_def guest_complete_def dict_get_def)
    with that show ?thesis
      by (auto dest: never_booking_executor)
  qed
  from book other run search show ?thesis
    by blast
qed

lemma search_run:
  "step (date_extractor, search_initial_state ''beach hotel in miami'') (query_analyzer, run_dates)"
  "step (query_analyzer, run_dates) (hotel_searcher, run_analysed)"
  "step (hotel_searcher, run_analysed) (availability_checker, run_searched)"
  "step (availability_checker, run_searched) (END, run_checked)"
proof -
  show "step (date_extractor, search_initial_state ''beach hotel in miami'')
          (query_analyzer, run_dates)"
    unfolding run_dates_def by (intro from_date_extractor extracted)
  have "query_analyzer_node run_dates run_analysed"
    unfolding run_analysed_def by (rule analysed)
  moreover have "query_analyzer_edges (should_search_hotels run_analysed) = Some hotel_searcher"
    by (simp add: query_analyzer_edges_def should_search_hotels_def run_analysed_def
        run_dates_def search_initial_state_def dict_get_def)
  ultimately show "step (query_analyzer, run_dates) (hotel_searcher, run_analysed)"
    by (rule from_query_analyzer)
  have "hotel_searcher_node run_analysed run_searched"
    unfolding run_searched_def by (rule searched)
  moreover have "hotel_searcher_edges (should_check_availability run_searched)
                   = Some availability_checker"
    by (simp add: hotel_searcher_edges_def should_check_availability_def run_searched_def
        run_analysed_def run_dates_def search_initial_state_def dict_get_def)
  ultimately show "step (hotel_searcher, run_analysed) (availability_checker, run_searched)"
    by (rule from_hotel_searcher)
  have "availability_checker_node run_searched run_checked"
    unfolding run_checked_def by (rule checked)
  moreover have "availability_checker_edges (should_proceed_to_booking run_checked) = Some END"
    by (simp add: availability_checker_edges_def should_proceed_to_booking_def run_checked_def
        run_searched_def run_analysed_def run_dates_def search_initial_state_def dict_get_def)
  ultimately show "step (availability_checker, run_searched) (END, run_checked)"
    by (rule from_availability_checker)
qed

lemma search_run_reaches:
  "step\<^sup>*\<^sup>* (date_extractor, search_initial_state ''beach hotel in miami'') (END, run_checked)"
  using search_run by (meson rtranclp.rtrancl_into_rtrancl rtranclp.rtrancl_refl)

theorem workflow_booking_gate_witness:
  "\<not> guest_complete (guest_info (search_initial_state ''beach hotel in miami''))
   \<and> step\<^sup>*\<^sup>* (date_extractor, search_initial_state ''beach hotel in miami'') (END, run_checked)
   \<and> dict_get (search_results run_checked) ''hotels'' (JList []) = JList [JDict hotel_2_json]
   \<and> selected_hotel run_checked \<noteq> []
   \<and> should_proceed_to_booking run_checked = ''end''"
proof -
  have g: "\<not> guest_complete (guest_info (search_initial_state ''beach hotel in miami''))"
    by (simp add: search_initial_state_def guest_complete_def dict_get_def)
  from workflow_booking_gate g search_run_reaches
  have "should_proceed_to_booking run_checked \<noteq> ''book''"
    by blast
  moreover have "error_message run_checked = []"
    by (simp add: run_checked_def run_searched_def run_analysed_def run_dates_def
        search_initial_state_def)
  ultimately have "should_proceed_to_booking run_checked = ''end''"
    by (simp add: should_proceed_to_booking_def split: if_splits)
  moreover have "dict_get (search_results run_checked) ''hotels'' (JList [])
                   = JList [JDict hotel_2_json]"
    by (simp add: run_checked_def run_searched_def dict_get_def)
  moreover have "selected_hotel run_checked \<noteq> []"
    by (simp add: run_checked_def)
  ultimately show ?thesis
    using g search_run_reaches by simp
qed

section \<open>The statistics\<close>

lemma dict_incr_keys:
  "map fst (dict_incr k kvs) = (if k \<in> set (map fst kvs) then map fst kvs else map fst kvs @ [k])"
  by (induction kvs) (auto simp: rev_image_eqI)

lemma dict_incr_map_of:
  "map_of (dict_incr k kvs) h =
     (if h = k then Some ((case map_of kvs k of None \<Rightarrow> 0 | Some v \<Rightarrow> v) + 1) else map_of kvs h)"
  by (induction kvs) auto

lemma filter_first_seen_absent:
  "k \<in> K \<Longrightarrow> filter (\<lambda>h. h \<noteq> k \<and> h \<notin> K) xs = filter (\<lambda>h. h \<notin> K) xs"
  by (rule filter_cong) auto

lemma counts_keys_from:
  "map fst (foldl (\<lambda>counts booking. if active booking then dict_incr (b_hotel_id booking) counts
                                     else counts) acc bs)
     = map fst acc @ filter (\<lambda>h. h \<notin> set (map fst acc))
                       (first_seen (map b_hotel_id (filter active bs)))"
proof (induction bs arbitrary: acc)
  case Nil
  show ?case by simp
next
  case (Cons b bs)
  show ?case
  proof (cases "active b")
    case False
    then show ?thesis using Cons.IH [of acc] by simp
  next
    case True
    show ?thesis
    proof (cases "b_hotel_id b \<in> set (map fst acc)")
      case True
      with \<open>active b\<close> show ?thesis
        using Cons.IH [of "dict_incr (b_hotel_id b) acc"]
        by (simp add: dict_incr_keys filter_first_seen_absent)
    next
      case False
      have "filter (\<lambda>h. h \<noteq> b_hotel_id b \<and> h \<notin> fst ` set acc) xs
              = filter (\<lambda>h. h \<notin> fst ` set acc) (filter (\<lambda>y. y \<noteq> b_hotel_id b) xs)" for xs
        by (induction xs) auto
      with False \<open>active b\<close> show ?thesis
        using Cons.IH [of "dict_incr (b_hotel_id b) acc"]
        by (simp add: dict_incr_keys)
    qed
  qed
qed

lemma hotel_booking_counts_keys:
  "map fst (hotel_booking_counts bs) = first_seen (map b_hotel_id (filter active bs))"
  by (simp add: hotel_booking_counts_def counts_keys_from)

lemma distinct_first_seen: "distinct (first_seen xs)"
  by (induction xs) auto

lemma counts_map_of_from:
  "map_of (foldl (\<lambda>counts booking. if active booking then dict_incr (b_hotel_id booking) counts
                                   else counts) acc bs) h
     = (if filter (\<lambda>b. active b \<and> b_hotel_id b = h) bs = [] then map_of acc h
        else Some ((case map_of acc h of None \<Rightarrow> 0 | Some v \<Rightarrow> v)
                     + int (length (filter (\<lambda>b. active b \<and> b_hotel_id b = h) bs))))"
proof (induction bs arbitrary: acc)
  case Nil
  show ?case by simp
next
  case (Cons b bs)
  show ?case
    using Cons.IH [of acc] Cons.IH [of "dict_incr (b_hotel_id b) acc"]
    by (auto simp: dict_incr_map_of split: option.splits)
qed

lemma hotel_booking_counts_count:
  assumes "(h, c) \<in> set (hotel_booking_counts bs)"
  shows "c = int (length (filter (\<lambda>b. active b \<and> b_hotel_id b = h) bs))"
proof -
  have "distinct (map fst (hotel_booking_counts bs))"
    by (simp add: hotel_booking_counts_keys distinct_first_seen)
  with assms have "map_of (hotel_booking_counts bs) h = Some c"
    by simp
  then show ?thesis
    by (simp add: hotel_booking_counts_def counts_map_of_from split: if_splits)
qed

lemma sorted_by_count_descending:
  "sorted_wrt (\<lambda>x y. snd x \<ge> snd y) (sorted_by_count items)"
proof -
  have "sorted (map (\<lambda>x. - snd x) (sorted_by_count items))"
    unfolding sorted_by_count_def by (rule sorted_sort_key)
  then show ?thesis
    by (simp add: sorted_map)
qed

lemma sorted_by_count_stable:
  "filter (\<lambda>x. snd x = k) (sorted_by_count items) = filter (\<lambda>x. snd x = k) items"
proof -
  have "(\<lambda>x::string \<times> int. snd x = k) = (\<lambda>x. - snd x = - k)"
    by auto
  then show ?thesis
    unfolding sorted_by_count_def by (simp only: sort_key_stable)
qed

lemma revenue_as_sum:
  "sum_list (map f (filter P xs)) = (\<Sum>x\<leftarrow>xs. if P x then f x else (0::real))"
  by (induction xs) auto

text \<open>
  Claim C8, as the code has it. The dictionary of counts holds the hotels with an active
  (confirmed or pending) booking, in the order in which their first active booking stands
  in the ledger, each with its number of active bookings. The ranking sorts it by count,
  descending, and is stable: hotels with the same count keep that order of first
  booking; the hotel identifier plays no part. The answer names at most the five first
  ranked hotels that the inventory knows. \<open>total_revenue\<close> is the sum of \<open>total_price\<close>
  over the bookings whose status is \<open>confirmed\<close>; pending and cancelled ones add nothing.
\<close>

theorem popular_hotels_ranking:
  "map fst (hotel_booking_counts (BOOKINGS s))
     = first_seen (map b_hotel_id (filter active (BOOKINGS s)))
   \<and> (\<forall>(h, c) \<in> set (hotel_booking_counts (BOOKINGS s)).
        c = int (length (filter (\<lambda>b. active b \<and> b_hotel_id b = h) (BOOKINGS s))))
   \<and> set (sorted_by_count (hotel_booking_counts (BOOKINGS s)))
        = set (hotel_booking_counts (BOOKINGS s))
   \<and> sorted_wrt (\<lambda>x y. snd x \<ge> snd y) (sorted_by_count (hotel_booking_counts (BOOKINGS s)))
   \<and> (\<forall>k. filter (\<lambda>x. snd x = k) (sorted_by_count (hotel_booking_counts (BOOKINGS s)))
            = filter (\<lambda>x. snd x = k) (hotel_booking_counts (BOOKINGS s)))
   \<and> most_popular_hotels (get_booking_statistics s)
        = take 5 (concat (map (\<lambda>(hotel_id, count).
                                 case find (\<lambda>h. h_id h = hotel_id) (HOTELS s) of
                                   None \<Rightarrow> []
                                 | Some hotel \<Rightarrow> [(h_name hotel, count)])
                            (sorted_by_count (hotel_booking_counts (BOOKINGS s)))))
   \<and> total_revenue (get_booking_statistics s)
        = (\<Sum>b\<leftarrow>BOOKINGS s. if b_status b = ''confirmed'' then b_total_price b else 0)"
proof -
  have "\<forall>(h, c) \<in> set (hotel_booking_counts (BOOKINGS s)).
          c = int (length (filter (\<lambda>b. active b \<and> b_hotel_id b = h) (BOOKINGS s)))"
    using hotel_booking_counts_count by blast
  moreover have "set (sorted_by_count (hotel_booking_counts (BOOKINGS s)))
                   = set (hotel_booking_counts (BOOKINGS s))"
    by (simp add: sorted_by_count_def)
  moreover have "most_popular_hotels (get_booking_statistics s)
        = take 5 (concat (map (\<lambda>(hotel_id, count).
                                 case find (\<lambda>h. h_id h = hotel_id) (HOTELS s) of
                                   None \<Rightarrow> []
                                 | Some hotel \<Rightarrow> [(h_name hotel, count)])
                            (sorted_by_count (hotel_booking_counts (BOOKINGS s)))))"
    by (simp add: get_booking_statistics_def popular_hotels_def)
  moreover have "total_revenue (get_booking_statistics s)
        = (\<Sum>b\<leftarrow>BOOKINGS s. if b_status b = ''confirmed'' then b_total_price b else 0)"
    by (simp add: get_booking_statistics_def revenue_as_sum)
  ultimately show ?thesis
    using hotel_booking_counts_keys [of "BOOKINGS s"]
      sorted_by_count_descending [of "hotel_booking_counts (BOOKINGS s)"]
      sorted_by_count_stable [of _ "hotel_booking_counts (BOOKINGS s)"]
    by simp
qed

lemma stats_store_counts:
  "hotel_booking_counts (BOOKINGS stats_store) = [(''hotel_2'', 1), (''hotel_1'', 2)]"
  by (simp add: hotel_booking_counts_def stats_store_def active_def data_defs
      booking_pending_def booking_cancelled_def)

lemma stats_store_statistics:
  "most_popular_hotels (get_booking_statistics stats_store)
     = [(''Grand Plaza Hotel'', 2), (''Seaside Resort'', 1)]"
  "total_revenue (get_booking_statistics stats_store) = 1110"
  by (simp_all add: get_booking_statistics_def popular_hotels_def sorted_by_count_def
      stats_store_counts)
     (simp_all add: stats_store_def data_defs booking_pending_def booking_cancelled_def)

theorem popular_hotels_ranking_witness:
  "hotel_booking_counts (BOOKINGS stats_store) = [(''hotel_2'', 1), (''hotel_1'', 2)]
   \<and> first_seen (map b_hotel_id (filter active (BOOKINGS stats_store))) = [''hotel_2'', ''hotel_1'']
   \<and> sorted_by_count (hotel_booking_counts (BOOKINGS stats_store))
       = [(''hotel_1'', 2), (''hotel_2'', 1)]
   \<and> most_popular_hotels (get_booking_statistics stats_store)
       = [(''Grand Plaza Hotel'', 2), (''Seaside Resort'', 1)]
   \<and> total_revenue (get_booking_statistics stats_store) = 1110
   \<and> map b_total_price (BOOKINGS stats_store) = [360, 540, 750, 200]"
  using popular_hotels_ranking [of stats_store] stats_store_counts stats_store_statistics
  by (simp add: sorted_by_count_def)
     (simp add: stats_store_def data_defs booking_pending_def booking_cancelled_def)

text \<open>
  The claim as worded, with ties broken by ascending hotel identifier, fails on a ledger
  in which \<open>hotel_2\<close> is booked before \<open>hotel_1\<close>, each once: the answer lists
  \<open>Seaside Resort\<close> (\<open>hotel_2\<close>) before \<open>Grand Plaza Hotel\<close> (\<open>hotel_1\<close>).
\<close>

theorem popular_hotels_tie_counterexample:
  "sorted_by_count (hotel_booking_counts (BOOKINGS tie_store)) = [(''hotel_2'', 1), (''hotel_1'', 1)]
   \<and> \<not> ranked_by_count_then_id (sorted_by_count (hotel_booking_counts (BOOKINGS tie_store)))
   \<and> most_popular_hotels (get_booking_statistics tie_store)
       = [(''Seaside Resort'', 1), (''Grand Plaza Hotel'', 1)]"
proof -
  have counts: "hotel_booking_counts (BOOKINGS tie_store) = [(''hotel_2'', 1), (''hotel_1'', 1)]"
    by (simp add: hotel_booking_counts_def tie_store_def active_def data_defs)
  have ranked: "sorted_by_count (hotel_booking_counts (BOOKINGS tie_store))
                  = [(''hotel_2'', 1), (''hotel_1'', 1)]"
    by (simp add: counts sorted_by_count_def)
  have "\<not> ranked_by_count_then_id [(''hotel_2'', 1), (''hotel_1'', 1)]"
    by (simp add: ranked_by_count_then_id_def)
  moreover have "most_popular_hotels (get_booking_statistics tie_store)
                   = [(''Seaside Resort'', 1), (''Grand Plaza Hotel'', 1)]"
    by (simp add: get_booking_statistics_def popular_hotels_def ranked)
       (simp add: tie_store_def data_defs)
  ultimately show ?thesis
    using ranked by simp
qed

section \<open>Dates and their strings\<close>

subsection \<open>The calendar\<close>

lemma div_pred:
  fixes y k :: int
  assumes "0 < k"
  shows "y div k = (y - 1) div k + (if y mod k = 0 then 1 else 0)"
proof (cases "y mod k = 0")
  case True
  have "y = k * (y div k) + y mod k"
    by simp
  with True have "y - 1 = k * (y div k - 1) + (k - 1)"
    by (simp add: algebra_simps)
  then have "(y - 1) div k = y div k - 1"
    by (rule int_div_pos_eq) (use assms in simp_all)
  with True show ?thesis by simp
next
  case False
  have "y = k * (y div k) + y mod k"
    by simp
  then have "y - 1 = k * (y div k) + (y mod k - 1)"
    by simp
  moreover have "0 \<le> y mod k" "y mod k < k"
    using assms by simp_all
  with False have "0 \<le> y mod k - 1" "y mod k - 1 < k"
    by arith+
  ultimately have "(y - 1) div k = y div k"
    by (rule int_div_pos_eq)
  with False show ?thesis by simp
qed

lemma leap_divisors:
  fixes y :: int
  shows "y mod 400 = 0 \<Longrightarrow> y mod 100 = 0" and "y mod 100 = 0 \<Longrightarrow> y mod 4 = 0"
  using mod_mod_cancel [of 100 400 y] mod_mod_cancel [of 4 100 y] by simp_all


lemma year_step_arith:
  fixes y p q r d4 d100 d400 :: int and m4 m100 m400 :: bool
  assumes "d4 = p + (if m4 then 1 else 0)"
    and "d100 = q + (if m100 then 1 else 0)"
    and "d400 = r + (if m400 then 1 else 0)"
    and "m400 \<Longrightarrow> m100" and "m100 \<Longrightarrow> m4"
  shows "y * 365 + d4 - d100 + d400
     = (y - 1) * 365 + p - q + r + (if m4 \<and> (\<not> m100 \<or> m400) then 366 else 365)"
  using assms by (cases m4; cases m100; cases m400) simp_all

lemma days_before_year_step:
  "days_before_year (y + 1) = days_before_year y + (if is_leap y then 366 else 365)"
proof -
  have "y * 365 + y div 4 - y div 100 + y div 400
     = (y - 1) * 365 + (y - 1) div 4 - (y - 1) div 100 + (y - 1) div 400
        + (if y mod 4 = 0 \<and> (\<not> y mod 100 = 0 \<or> y mod 400 = 0) then 366 else 365)"
    by (rule year_step_arith [OF div_pred div_pred div_pred leap_divisors]) simp_all
  moreover have "y + 1 - 1 = y"
    by simp
  ultimately show ?thesis
    unfolding days_before_year_def is_leap_def Let_def by (simp only:)
qed

lemma days_before_year_mono:
  assumes "y \<le> y'"
  shows "days_before_year y \<le> days_before_year y'"
  using assms
proof (induction y' rule: int_ge_induct)
  case base
  show ?case by simp
next
  case (step i)
  have "days_before_year i \<le> days_before_year (i + 1)"
    by (simp only: days_before_year_step split: if_splits) simp
  with step.IH show ?case by simp
qed

lemma days_before_year_less:
  assumes "y < y'"
  shows "days_before_year y + (if is_leap y then 366 else 365) \<le> days_before_year y'"
proof -
  from assms have "y + 1 \<le> y'" by simp
  then have "days_before_year (y + 1) \<le> days_before_year y'"
    by (rule days_before_year_mono)
  then show ?thesis
    by (simp only: days_before_year_step)
qed

lemma month_cases:
  fixes m :: int
  assumes "1 \<le> m" and "m \<le> 12"
  shows "m = 1 \<or> m = 2 \<or> m = 3 \<or> m = 4 \<or> m = 5 \<or> m = 6 \<or> m = 7 \<or> m = 8 \<or> m = 9
           \<or> m = 10 \<or> m = 11 \<or> m = 12"
  using assms by arith

lemma days_in_month_values:
  "days_in_month y 1 = 31" "days_in_month y 2 = (if is_leap y then 29 else 28)"
  "days_in_month y 3 = 31" "days_in_month y 4 = 30" "days_in_month y 5 = 31"
  "days_in_month y 6 = 30" "days_in_month y 7 = 31" "days_in_month y 8 = 31"
  "days_in_month y 9 = 30" "days_in_month y 10 = 31" "days_in_month y 11 = 30"
  "days_in_month y 12 = 31"
  by (simp_all add: days_in_month_def)

lemma days_before_month_values:
  "days_before_month y 1 = 0" "days_before_month y 2 = 31"
  "days_before_month y 3 = 59 + (if is_leap y then 1 else 0)"
  "days_before_month y 4 = 90 + (if is_leap y then 1 else 0)"
  "days_before_month y 5 = 120 + (if is_leap y then 1 else 0)"
  "days_before_month y 6 = 151 + (if is_leap y then 1 else 0)"
  "days_before_month y 7 = 181 + (if is_leap y then 1 else 0)"
  "days_before_month y 8 = 212 + (if is_leap y then 1 else 0)"
  "days_before_month y 9 = 243 + (if is_leap y then 1 else 0)"
  "days_before_month y 10 = 273 + (if is_leap y then 1 else 0)"
  "days_before_month y 11 = 304 + (if is_leap y then 1 else 0)"
  "days_before_month y 12 = 334 + (if is_leap y then 1 else 0)"
  by (simp_all add: days_before_month_def)

lemma days_in_month_positive:
  assumes "1 \<le> m" and "m \<le> 12"
  shows "28 \<le> days_in_month y m"
  using month_cases [OF assms]
  by (elim disjE) (simp_all add: days_in_month_values)

text \<open>Each month starts where the month before it ends, and the year ends with December.\<close>

lemma days_before_next_month:
  assumes "1 \<le> m" and "m \<le> 11"
  shows "days_before_month y (m + 1) = days_before_month y m + days_in_month y m"
proof -
  from assms have "m = 1 \<or> m = 2 \<or> m = 3 \<or> m = 4 \<or> m = 5 \<or> m = 6 \<or> m = 7 \<or> m = 8
                     \<or> m = 9 \<or> m = 10 \<or> m = 11"
    by arith
  then show ?thesis
    by (elim disjE) (simp_all add: days_in_month_values days_before_month_values)
qed

lemma days_before_month_mono:
  assumes "1 \<le> m" and "m \<le> m'" and "m' \<le> 12"
  shows "days_before_month y m \<le> days_before_month y m'"
  using assms(2,1,3)
proof (induction m' rule: int_ge_induct)
  case base
  show ?case by simp
next
  case (step i)
  then have "days_before_month y (i + 1) = days_before_month y i + days_in_month y i"
    by (intro days_before_next_month) simp_all
  moreover from step have "28 \<le> days_in_month y i"
    by (intro days_in_month_positive) simp_all
  moreover from step have "days_before_month y m \<le> days_before_month y i"
    by simp
  ultimately show ?case by simp
qed

text \<open>The day of the year lies within the year.\<close>

lemma day_of_year_bounds:
  assumes "valid_date y m d"
  shows "1 \<le> days_before_month y m + d"
    and "days_before_month y m + d \<le> (if is_leap y then 366 else 365)"
proof -
  from assms have m: "1 \<le> m" "m \<le> 12" and d: "1 \<le> d" "d \<le> days_in_month y m"
    by (simp_all add: valid_date_def)
  from month_cases [OF m] d
  show "1 \<le> days_before_month y m + d"
    by (elim disjE) (simp_all add: days_before_month_values)
  from month_cases [OF m] d
  show "days_before_month y m + d \<le> (if is_leap y then 366 else 365)"
    by (elim disjE)
       (simp_all add: days_before_month_values days_in_month_values split: if_splits)
qed

text \<open>A later month of the same year starts after every day of an earlier month.\<close>

lemma month_less:
  assumes "valid_date y m d" and "m' \<le> 12" and "m < m'"
  shows "days_before_month y m + d \<le> days_before_month y m'"
proof -
  from assms have m: "1 \<le> m" "m \<le> 11" and d: "d \<le> days_in_month y m"
    by (simp_all add: valid_date_def)
  from d have "days_before_month y m + d \<le> days_before_month y (m + 1)"
    by (simp add: days_before_next_month [OF m])
  also have "\<dots> \<le> days_before_month y m'"
    using m assms(2,3) by (intro days_before_month_mono) simp_all
  finally show ?thesis .
qed

text \<open>
  The day number grows strictly with the date: on valid dates, \<open>ymd2ord\<close> is strictly
  monotone for the lexicographic order of year, month and day.
\<close>

lemma ymd2ord_strict_mono:
  assumes v: "valid_date y m d" and v': "valid_date y' m' d'"
    and less: "y < y' \<or> (y = y' \<and> (m < m' \<or> (m = m' \<and> d < d')))"
  shows "ymd2ord y m d < ymd2ord y' m' d'"
proof -
  from v' have m': "m' \<le> 12" and d': "1 \<le> d'"
    by (simp_all add: valid_date_def)
  consider "y < y'" | "y = y'" "m < m'" | "y = y'" "m = m'" "d < d'"
    using less by blast
  then show ?thesis
  proof cases
    case 1
    have "ymd2ord y m d \<le> days_before_year y + (if is_leap y then 366 else 365)"
      using day_of_year_bounds(2) [OF v] by (simp add: ymd2ord_def)
    also have "\<dots> \<le> days_before_year y'"
      using 1 by (rule days_before_year_less)
    also have "\<dots> < ymd2ord y' m' d'"
      using day_of_year_bounds(1) [OF v'] by (simp add: ymd2ord_def)
    finally show ?thesis .
  next
    case 2
    have "days_before_month y m + d \<le> days_before_month y m'"
      using v m' 2(2) by (rule month_less)
    with 2(1) d' show ?thesis
      by (simp add: ymd2ord_def)
  next
    case 3
    then show ?thesis
      by (simp add: ymd2ord_def)
  qed
qed

lemma ymd2ord_le_iff:
  assumes v: "valid_date y m d" and v': "valid_date y' m' d'"
  shows "ymd2ord y m d \<le> ymd2ord y' m' d'
           \<longleftrightarrow> y < y' \<or> (y = y' \<and> (m < m' \<or> (m = m' \<and> d \<le> d')))"
proof -
  consider "y < y' \<or> (y = y' \<and> (m < m' \<or> (m = m' \<and> d < d')))"
    | "y' < y \<or> (y' = y \<and> (m' < m \<or> (m' = m \<and> d' < d)))"
    | "y = y'" "m = m'" "d = d'"
    by linarith
  then show ?thesis
  proof cases
    case 1
    from ymd2ord_strict_mono [OF v v' 1] 1 show ?thesis by auto
  next
    case 2
    from ymd2ord_strict_mono [OF v' v 2] 2 show ?thesis by auto
  next
    case 3
    then show ?thesis by simp
  qed
qed

subsection \<open>Canonical date strings are ordered as their dates\<close>

lemma digit_facts:
  assumes "is_digit a" and "is_digit b"
  shows "a < b \<longleftrightarrow> digit_val a < digit_val b"
    and "a \<le> b \<longleftrightarrow> digit_val a \<le> digit_val b"
    and "a = b \<longleftrightarrow> digit_val a = digit_val b"
    and "0 \<le> digit_val a" and "digit_val a \<le> 9"
    and "a \<noteq> CHR ''-''" and "a \<noteq> CHR '' ''"
  using assms
  by (auto simp: is_digit_def digit_val_def less_eq_char_def less_char_def)

lemma append_less_iff:
  fixes xs ys :: "'a::linorder list"
  shows "length xs = length ys \<Longrightarrow> xs @ u < ys @ v \<longleftrightarrow> xs < ys \<or> (xs = ys \<and> u < v)"
  by (induction xs ys rule: list_induct2) auto

lemma append_le_iff:
  fixes xs ys :: "'a::linorder list"
  shows "length xs = length ys \<Longrightarrow> xs @ u \<le> ys @ v \<longleftrightarrow> xs < ys \<or> (xs = ys \<and> u \<le> v)"
  by (induction xs ys rule: list_induct2) auto

lemma lex_digit:
  fixes a a' r r' :: int
  assumes "0 \<le> r" "r \<le> 9" "0 \<le> r'" "r' \<le> 9"
  shows "a < a' \<or> (a = a' \<and> r < r') \<longleftrightarrow> 10 * a + r < 10 * a' + r'"
    and "a = a' \<and> r = r' \<longleftrightarrow> 10 * a + r = 10 * a' + r'"
proof -
  have up: "10 * a + r < 10 * a' + r'" if "a < a'"
    using that assms by linarith
  have down: "10 * a' + r' < 10 * a + r" if "a' < a"
    using that assms by linarith
  show "a < a' \<or> (a = a' \<and> r < r') \<longleftrightarrow> 10 * a + r < 10 * a' + r'"
  proof (cases a a' rule: linorder_cases)
    case less
    with up show ?thesis by simp
  next
    case equal
    then show ?thesis by simp
  next
    case greater
    with down [OF greater] show ?thesis by simp
  qed
  show "a = a' \<and> r = r' \<longleftrightarrow> 10 * a + r = 10 * a' + r'"
  proof (cases a a' rule: linorder_cases)
    case less
    with up [OF less] show ?thesis by simp
  next
    case equal
    then show ?thesis by simp
  next
    case greater
    with down [OF greater] show ?thesis by simp
  qed
qed

lemma digits_order_from:
  assumes "length xs = length ys" and "list_all is_digit xs" and "list_all is_digit ys"
  shows "((v < w \<or> (v = w \<and> xs < ys))
           \<longleftrightarrow> foldl (\<lambda>v c. 10 * v + digit_val c) v xs < foldl (\<lambda>v c. 10 * v + digit_val c) w ys)
       \<and> ((v = w \<and> xs = ys)
           \<longleftrightarrow> foldl (\<lambda>v c. 10 * v + digit_val c) v xs = foldl (\<lambda>v c. 10 * v + digit_val c) w ys)"
  using assms
proof (induction xs ys arbitrary: v w rule: list_induct2)
  case Nil
  show ?case by simp
next
  case (Cons x xs y ys)
  from Cons.prems have dx: "is_digit x" and dy: "is_digit y"
    and rest: "list_all is_digit xs" "list_all is_digit ys"
    by simp_all
  note lex = lex_digit [OF digit_facts(4,5) [OF dx dx] digit_facts(4,5) [OF dy dy], symmetric]
  note cmp = digit_facts(1,3) [OF dx dy]
  note IH = Cons.IH [OF rest, of "10 * v + digit_val x" "10 * w + digit_val y"]
  note IH1 = IH [THEN conjunct1, symmetric] and IH2 = IH [THEN conjunct2, symmetric]
  have "(v < w \<or> (v = w \<and> x # xs < y # ys))
          \<longleftrightarrow> ((v < w \<or> (v = w \<and> digit_val x < digit_val y))
                \<or> ((v = w \<and> digit_val x = digit_val y) \<and> xs < ys))"
    unfolding Cons_less_Cons cmp by blast
  moreover have "(v = w \<and> x # xs = y # ys)
          \<longleftrightarrow> ((v = w \<and> digit_val x = digit_val y) \<and> xs = ys)"
    unfolding list.inject cmp by blast
  ultimately show ?case
    unfolding foldl_Cons IH1 IH2 lex by blast
qed

lemma digits_order:
  assumes "length xs = length ys" and "list_all is_digit xs" and "list_all is_digit ys"
  shows "xs < ys \<longleftrightarrow> digits_value xs < digits_value ys"
    and "xs = ys \<longleftrightarrow> digits_value xs = digits_value ys"
  using digits_order_from [OF assms, of 0 0] by (simp_all add: digits_value_def)

lemma parse_month_two:
  assumes "is_digit a" and "is_digit b" and "parse_month [a, b] = Some m"
  shows "m = digits_value [a, b]"
  using assms by (auto simp: digits_value_def digit_val_def split: if_splits)

lemma parse_day_two:
  assumes "is_digit a" and "is_digit b" and "parse_day [a, b] = Some d"
  shows "d = digits_value [a, b]"
  using assms digit_facts(7) [of a a]
  by (auto simp: digits_value_def digit_val_def split: if_splits)

text \<open>
  A canonical date string is four digits, a hyphen, two digits, a hyphen and two digits,
  and \<open>strptime\<close> reads the three numbers they write.
\<close>

lemma canonical_date_parts:
  assumes "canonical_date s"
  obtains ys ms ds where
    "s = ys @ CHR ''-'' # ms @ CHR ''-'' # ds"
    "length ys = 4" "length ms = 2" "length ds = 2"
    "list_all is_digit ys" "list_all is_digit ms" "list_all is_digit ds"
    "valid_date (digits_value ys) (digits_value ms) (digits_value ds)"
    "strptime s = Some (ymd2ord (digits_value ys) (digits_value ms) (digits_value ds))"
proof -
  from assms obtain y1 y2 y3 y4 m1 m2 d1 d2 where
    s: "s = [y1, y2, y3, y4, CHR ''-'', m1, m2, CHR ''-'', d1, d2]"
    and y: "is_digit y1" "is_digit y2" "is_digit y3" "is_digit y4"
    and m: "is_digit m1" "is_digit m2" and d: "is_digit d1" "is_digit d2"
    and p: "strptime s \<noteq> None"
    by (auto elim!: canonical_date.elims(2))
  have hyphen: "m1 \<noteq> CHR ''-''" "m2 \<noteq> CHR ''-''"
    using m digit_facts(6) by blast+
  have fields: "parse_fields s =
      (case parse_month [m1, m2] of
         None \<Rightarrow> None
       | Some month \<Rightarrow>
          (case parse_day [d1, d2] of
             None \<Rightarrow> None
           | Some day \<Rightarrow> Some (digits_value [y1, y2, y3, y4], month, day)))"
    unfolding s using y hyphen
    by (simp add: digits_value_def split: option.splits)
  from p obtain month day where
    pm: "parse_month [m1, m2] = Some month" and pd: "parse_day [d1, d2] = Some day"
    and valid: "valid_date (digits_value [y1, y2, y3, y4]) month day"
    and ord: "strptime s = Some (ymd2ord (digits_value [y1, y2, y3, y4]) month day)"
    unfolding strptime_def fields
    by (auto split: option.splits if_splits)
  have "month = digits_value [m1, m2]" and "day = digits_value [d1, d2]"
    using m d pm pd by (simp_all add: parse_month_two parse_day_two)
  with valid ord show thesis
    using y m d by (intro that [of "[y1, y2, y3, y4]" "[m1, m2]" "[d1, d2]"]) (simp_all add: s)
qed

text \<open>On canonical date strings the order of the strings is the order of the days.\<close>

lemma canonical_date_le:
  assumes "canonical_date s" and "canonical_date t"
    and "strptime s = Some a" and "strptime t = Some b"
  shows "s \<le> t \<longleftrightarrow> a \<le> b"
proof -
  from assms(1) obtain ys ms ds where
    s: "s = ys @ CHR ''-'' # ms @ CHR ''-'' # ds"
    and ls: "length ys = 4" "length ms = 2" "length ds = 2"
    and ds: "list_all is_digit ys" "list_all is_digit ms" "list_all is_digit ds"
    and vs: "valid_date (digits_value ys) (digits_value ms) (digits_value ds)"
    and os: "strptime s = Some (ymd2ord (digits_value ys) (digits_value ms) (digits_value ds))"
    by (rule canonical_date_parts)
  from assms(2) obtain yt mt dt where
    t: "t = yt @ CHR ''-'' # mt @ CHR ''-'' # dt"
    and lt: "length yt = 4" "length mt = 2" "length dt = 2"
    and dt: "list_all is_digit yt" "list_all is_digit mt" "list_all is_digit dt"
    and vt: "valid_date (digits_value yt) (digits_value mt) (digits_value dt)"
    and ot: "strptime t = Some (ymd2ord (digits_value yt) (digits_value mt) (digits_value dt))"
    by (rule canonical_date_parts)
  have ly: "length ys = length yt" and lm: "length ms = length mt" and ld: "length ds = length dt"
    using ls lt by simp_all
  have "s \<le> t \<longleftrightarrow> ys < yt \<or> (ys = yt \<and> (ms < mt \<or> (ms = mt \<and> (ds < dt \<or> ds = dt))))"
    unfolding s t append_le_iff [OF ly] Cons_le_Cons append_le_iff [OF lm] le_less [of ds dt]
    by blast
  also have "\<dots> \<longleftrightarrow> digits_value ys < digits_value yt
      \<or> (digits_value ys = digits_value yt
          \<and> (digits_value ms < digits_value mt
              \<or> (digits_value ms = digits_value mt \<and> digits_value ds \<le> digits_value dt)))"
    unfolding digits_order [OF ly ds(1) dt(1)] digits_order [OF lm ds(2) dt(2)]
      digits_order [OF ld ds(3) dt(3)]
    by auto
  also have "\<dots> \<longleftrightarrow> ymd2ord (digits_value ys) (digits_value ms) (digits_value ds)
                     \<le> ymd2ord (digits_value yt) (digits_value mt) (digits_value dt)"
    by (rule ymd2ord_le_iff [OF vs vt, symmetric])
  finally show ?thesis
    using assms(3,4) os ot by simp
qed

lemma canonical_date_eq:
  assumes "canonical_date s" and "canonical_date t" and "strptime s = strptime t"
  shows "s = t"
proof -
  from assms(1) obtain a where a: "strptime s = Some a"
    by (auto elim: canonical_date_parts)
  with assms(3) have b: "strptime t = Some a" by simp
  from canonical_date_le [OF assms(1,2) a b] canonical_date_le [OF assms(2,1) b a]
  show ?thesis by simp
qed

section \<open>Conflicts\<close>

lemma conflicting_canonical:
  assumes "canonical_date check_in" and "canonical_date check_out"
    and "canonical_date (b_check_in b)" and "canonical_date (b_check_out b)"
  shows "conflicting room_id check_in check_out b
           \<longleftrightarrow> b_room_id b = room_id \<and> active b \<and> date_ranges_overlap check_in check_out b"
proof -
  from assms obtain i out bi bo where
    p: "strptime check_in = Some i" "strptime check_out = Some out"
       "strptime (b_check_in b) = Some bi" "strptime (b_check_out b) = Some bo"
    by (metis canonical_date_parts)
  have "check_out \<le> b_check_in b \<longleftrightarrow> out \<le> bi"
    using assms(2,3) p(2,3) by (rule canonical_date_le)
  moreover have "b_check_out b \<le> check_in \<longleftrightarrow> bo \<le> i"
    using assms(4,1) p(4,1) by (rule canonical_date_le)
  ultimately show ?thesis
    by (simp add: conflicting_def date_ranges_overlap_def overlaps_def p)
qed

text \<open>When \<open>book_hotel\<close> answers with the conflict error, and what the error carries.\<close>

lemma book_hotel_conflict_iff:
  "fst (book_hotel s booking_id hotel_id room_id guest_name guest_email check_in check_out)
     = BookConflict msg dates
   \<longleftrightarrow> find (\<lambda>h. h_id h = hotel_id) (HOTELS s) \<noteq> None
       \<and> (\<exists>room. find (\<lambda>r. r_id r = room_id \<and> r_hotel_id r = hotel_id) (ROOMS s) = Some room
                  \<and> r_available room)
       \<and> (\<exists>check_in_date check_out_date.
             strptime check_in = Some check_in_date \<and> strptime check_out = Some check_out_date
               \<and> check_in_date < check_out_date)
       \<and> (\<exists>b \<in> set (BOOKINGS s). conflicting room_id check_in check_out b)
       \<and> msg = ''Room is not available for these dates due to existing bookings''
       \<and> dates = map (\<lambda>b. b_check_in b @ '' to '' @ b_check_out b)
                    (filter (conflicting room_id check_in check_out) (BOOKINGS s))"
  by (auto simp: book_hotel_def Let_def filter_empty_conv split: option.splits)

text \<open>
  On canonical date strings, in the request and in the ledger, the conflict error is
  returned exactly when hotel and room exist, the room is flagged available, the check-out
  day is after the check-in day, and an active booking of the room overlaps the requested
  days; the error lists the ranges of exactly these bookings.
\<close>

lemma book_hotel_conflict_canonical:
  assumes "canonical_date check_in" and "canonical_date check_out"
    and "\<forall>b \<in> set (BOOKINGS s). canonical_date (b_check_in b) \<and> canonical_date (b_check_out b)"
  shows "(\<exists>msg dates.
            fst (book_hotel s booking_id hotel_id room_id guest_name guest_email check_in check_out)
              = BookConflict msg dates)
         \<longleftrightarrow> find (\<lambda>h. h_id h = hotel_id) (HOTELS s) \<noteq> None
             \<and> (\<exists>room. find (\<lambda>r. r_id r = room_id \<and> r_hotel_id r = hotel_id) (ROOMS s) = Some room
                        \<and> r_available room)
             \<and> (\<exists>check_in_date check_out_date.
                   strptime check_in = Some check_in_date
                     \<and> strptime check_out = Some check_out_date
                     \<and> check_in_date < check_out_date)
             \<and> (\<exists>b \<in> set (BOOKINGS s).
                   b_room_id b = room_id \<and> active b \<and> date_ranges_overlap check_in check_out b)"
proof -
  have "conflicting room_id check_in check_out b
          \<longleftrightarrow> b_room_id b = room_id \<and> active b \<and> date_ranges_overlap check_in check_out b"
    if "b \<in> set (BOOKINGS s)" for b
    using assms that by (intro conflicting_canonical) auto
  then have "(\<exists>b \<in> set (BOOKINGS s). conflicting room_id check_in check_out b)
      \<longleftrightarrow> (\<exists>b \<in> set (BOOKINGS s).
             b_room_id b = room_id \<and> active b \<and> date_ranges_overlap check_in check_out b)"
    by blast
  then show ?thesis
    unfolding book_hotel_conflict_iff by blast
qed

subsection \<open>The check-out day is free\<close>

lemma overlaps_days:
  fixes a b c d :: int
  assumes "a < b" and "c < d"
  shows "overlaps (a, b) (c, d) \<longleftrightarrow> {a..<b} \<inter> {c..<d} \<noteq> {}"
proof
  assume "overlaps (a, b) (c, d)"
  then have "max a c \<in> {a..<b} \<inter> {c..<d}"
    using assms by (auto simp: overlaps_def)
  then show "{a..<b} \<inter> {c..<d} \<noteq> {}"
    by blast
next
  assume "{a..<b} \<inter> {c..<d} \<noteq> {}"
  then show "overlaps (a, b) (c, d)"
    by (auto simp: overlaps_def)
qed

lemma no_conflict_when_apart:
  assumes "\<forall>b \<in> set (BOOKINGS s). b_room_id b = room_id \<and> active b
             \<longrightarrow> b_check_out b \<le> check_in \<or> check_out \<le> b_check_in b"
  shows "filter (conflicting room_id check_in check_out) (BOOKINGS s) = []"
  using assms by (auto simp: filter_empty_conv conflicting_def overlaps_def)

text \<open>
  What the code does for dates that are written alike. The predicate is
  \<open>not (check_out <= b_in or check_in >= b_out)\<close>; on day numbers, for two non-empty
  ranges, it says that the half-open ranges share a day. A booking whose check-out is the
  very string that the request has as check-in is not a conflict, and neither is one whose
  check-in is the check-out of the request; for canonical date strings it is enough that
  the two strings denote the same day. When every active booking of a room ends, as a
  string, by the requested check-in or starts at the requested check-out or later,
  \<open>book_hotel\<close> does not answer with the conflict error and \<open>check_availability\<close> lists
  the room, if it belongs to the hotel, is flagged available and is large enough.
\<close>

lemma same_spelling_no_conflict:
  "(\<forall>A B :: string \<times> string. overlaps A B \<longleftrightarrow> \<not> (snd A \<le> fst B \<or> fst A \<ge> snd B))
   \<and> (\<forall>a b c d :: int. a < b \<and> c < d \<longrightarrow>
        (overlaps (a, b) (c, d) \<longleftrightarrow> {a..<b} \<inter> {c..<d} \<noteq> {}))
   \<and> (\<forall>room_id check_in check_out b.
        b_check_out b = check_in \<or> b_check_in b = check_out
        \<longrightarrow> \<not> conflicting room_id check_in check_out b)
   \<and> (\<forall>room_id check_in check_out b.
        canonical_date (b_check_out b) \<and> canonical_date check_in
          \<and> strptime (b_check_out b) = strptime check_in
        \<longrightarrow> \<not> conflicting room_id check_in check_out b)
   \<and> (\<forall>s booking_id hotel_id room_id guest_name guest_email check_in check_out msg dates.
        (\<forall>b \<in> set (BOOKINGS s). b_room_id b = room_id \<and> active b
            \<longrightarrow> b_check_out b \<le> check_in \<or> check_out \<le> b_check_in b)
        \<longrightarrow> fst (book_hotel s booking_id hotel_id room_id guest_name guest_email
                   check_in check_out) \<noteq> BookConflict msg dates)
   \<and> (\<forall>s hotel_id check_in check_out guests room.
        (\<forall>b \<in> set (BOOKINGS s). b_room_id b = r_id room \<and> active b
            \<longrightarrow> b_check_out b \<le> check_in \<or> check_out \<le> b_check_in b)
          \<and> find (\<lambda>h. h_id h = hotel_id) (HOTELS s) \<noteq> None
          \<and> room \<in> set (ROOMS s) \<and> r_hotel_id room = hotel_id \<and> r_available room
          \<and> guests \<le> r_capacity room
        \<longrightarrow> (\<exists>rooms. check_availability s hotel_id check_in check_out guests
                         = Availability hotel_id check_in check_out guests rooms
                     \<and> room \<in> set rooms))"
proof -
  have predicate: "\<forall>A B :: string \<times> string.
      overlaps A B \<longleftrightarrow> \<not> (snd A \<le> fst B \<or> fst A \<ge> snd B)"
    by (simp add: overlaps_def split_beta)
  have days: "\<forall>a b c d :: int. a < b \<and> c < d \<longrightarrow>
      (overlaps (a, b) (c, d) \<longleftrightarrow> {a..<b} \<inter> {c..<d} \<noteq> {})"
    using overlaps_days by blast
  have same: "\<forall>room_id check_in check_out b.
      b_check_out b = check_in \<or> b_check_in b = check_out
      \<longrightarrow> \<not> conflicting room_id check_in check_out b"
    by (auto simp: conflicting_def overlaps_def)
  have canonical: "\<forall>room_id check_in check_out b.
      canonical_date (b_check_out b) \<and> canonical_date check_in
        \<and> strptime (b_check_out b) = strptime check_in
      \<longrightarrow> \<not> conflicting room_id check_in check_out b"
  proof (intro allI impI)
    fix room_id check_in check_out and b :: booking
    assume "canonical_date (b_check_out b) \<and> canonical_date check_in
              \<and> strptime (b_check_out b) = strptime check_in"
    then have "b_check_out b = check_in"
      by (simp add: canonical_date_eq)
    then show "\<not> conflicting room_id check_in check_out b"
      by (simp add: conflicting_def overlaps_def)
  qed
  have book: "\<forall>s booking_id hotel_id room_id guest_name guest_email check_in check_out msg dates.
        (\<forall>b \<in> set (BOOKINGS s). b_room_id b = room_id \<and> active b
            \<longrightarrow> b_check_out b \<le> check_in \<or> check_out \<le> b_check_in b)
        \<longrightarrow> fst (book_hotel s booking_id hotel_id room_id guest_name guest_email
                   check_in check_out) \<noteq> BookConflict msg dates"
  proof (intro allI impI notI)
    fix s :: store and booking_id hotel_id room_id guest_name guest_email check_in check_out
      msg dates
    assume apart: "\<forall>b \<in> set (BOOKINGS s). b_room_id b = room_id \<and> active b
            \<longrightarrow> b_check_out b \<le> check_in \<or> check_out \<le> b_check_in b"
    assume "fst (book_hotel s booking_id hotel_id room_id guest_name guest_email
                   check_in check_out) = BookConflict msg dates"
    then have "\<exists>b \<in> set (BOOKINGS s). conflicting room_id check_in check_out b"
      unfolding book_hotel_conflict_iff by (elim conjE)
    with no_conflict_when_apart [OF apart] show False
      by (simp add: filter_empty_conv)
  qed
  have avail: "\<forall>s hotel_id check_in check_out guests room.
        (\<forall>b \<in> set (BOOKINGS s). b_room_id b = r_id room \<and> active b
            \<longrightarrow> b_check_out b \<le> check_in \<or> check_out \<le> b_check_in b)
          \<and> find (\<lambda>h. h_id h = hotel_id) (HOTELS s) \<noteq> None
          \<and> room \<in> set (ROOMS s) \<and> r_hotel_id room = hotel_id \<and> r_available room
          \<and> guests \<le> r_capacity room
        \<longrightarrow> (\<exists>rooms. check_availability s hotel_id check_in check_out guests
                         = Availability hotel_id check_in check_out guests rooms
                     \<and> room \<in> set rooms)"
  proof (intro allI impI)
    fix s :: store and hotel_id check_in check_out guests and room :: room
    assume a: "(\<forall>b \<in> set (BOOKINGS s). b_room_id b = r_id room \<and> active b
            \<longrightarrow> b_check_out b \<le> check_in \<or> check_out \<le> b_check_in b)
          \<and> find (\<lambda>h. h_id h = hotel_id) (HOTELS s) \<noteq> None
          \<and> room \<in> set (ROOMS s) \<and> r_hotel_id room = hotel_id \<and> r_available room
          \<and> guests \<le> r_capacity room"
    then have "filter (conflicting (r_id room) check_in check_out) (BOOKINGS s) = []"
      by (intro no_conflict_when_apart) simp
    moreover from a obtain hotel where "find (\<lambda>h. h_id h = hotel_id) (HOTELS s) = Some hotel"
      by blast
    ultimately show "\<exists>rooms. check_availability s hotel_id check_in check_out guests
                         = Availability hotel_id check_in check_out guests rooms
                     \<and> room \<in> set rooms"
      using a by (simp add: check_availability_def)
  qed
  show ?thesis
    by (rule conjI [OF predicate conjI [OF days conjI [OF same conjI [OF canonical
          conjI [OF book avail]]]]])
qed

lemma july_back_to_back:
  "book_hotel july_store ''n1'' ''hotel_1'' ''room_1_1'' ''Ann'' ''ann@example.org''
       ''2025-07-27'' ''2025-07-29''
     = (BookConfirmed
          \<lparr> b_id = ''n1'', b_hotel_id = ''hotel_1'', b_room_id = ''room_1_1'',
            b_guest_name = ''Ann'', b_guest_email = ''ann@example.org'',
            b_check_in = ''2025-07-27'', b_check_out = ''2025-07-29'',
            b_total_price = 500, b_status = ''confirmed'' \<rparr>
          hotel_1 room_1_1 2 ''Booking confirmed! Your reservation ID is n1'',
        july_store\<lparr>BOOKINGS := BOOKINGS july_store @
          [\<lparr> b_id = ''n1'', b_hotel_id = ''hotel_1'', b_room_id = ''room_1_1'',
             b_guest_name = ''Ann'', b_guest_email = ''ann@example.org'',
             b_check_in = ''2025-07-27'', b_check_out = ''2025-07-29'',
             b_total_price = 500, b_status = ''confirmed'' \<rparr>]\<rparr>)"
  by (simp add: book_hotel_def Let_def conflict_defs july_store_def data_defs)

lemma july_available:
  "check_availability july_store ''hotel_1'' ''2025-07-27'' ''2025-07-29'' 2
     = Availability ''hotel_1'' ''2025-07-27'' ''2025-07-29'' 2 [room_1_1, room_100]"
  by (simp add: check_availability_def conflict_defs july_store_def data_defs)

lemma july_apart:
  "\<forall>b \<in> set (BOOKINGS july_store). b_room_id b = ''room_1_1'' \<and> active b
     \<longrightarrow> b_check_out b \<le> ''2025-07-27'' \<or> ''2025-07-29'' \<le> b_check_in b"
  by (simp add: july_store_def data_defs)

lemma july_back_to_back_free:
  "b_check_out booking_july = ''2025-07-27''
   \<and> \<not> conflicting ''room_1_1'' ''2025-07-27'' ''2025-07-29'' booking_july
   \<and> filter (conflicting ''room_1_1'' ''2025-07-27'' ''2025-07-29'') (BOOKINGS july_store) = []
   \<and> (\<exists>booking s'.
        book_hotel july_store ''n1'' ''hotel_1'' ''room_1_1'' ''Ann'' ''ann@example.org''
            ''2025-07-27'' ''2025-07-29''
          = (BookConfirmed booking hotel_1 room_1_1 2
               ''Booking confirmed! Your reservation ID is n1'', s'))
   \<and> check_availability july_store ''hotel_1'' ''2025-07-27'' ''2025-07-29'' 2
       = Availability ''hotel_1'' ''2025-07-27'' ''2025-07-29'' 2 [room_1_1, room_100]
   \<and> overlaps (739457::int, 739459) (739458, 739460)
   \<and> \<not> overlaps (739457::int, 739459) (739459, 739461)"
proof -
  have out: "b_check_out booking_july = ''2025-07-27''"
    by (simp add: booking_july_def)
  have "\<not> conflicting ''room_1_1'' ''2025-07-27'' ''2025-07-29'' booking_july"
    using same_spelling_no_conflict [THEN conjunct2, THEN conjunct2, THEN conjunct1, rule_format,
        of booking_july "''2025-07-27''" "''2025-07-29''" "''room_1_1''"] out
    by simp
  moreover have "overlaps (739457::int, 739459) (739458, 739460)"
    and "\<not> overlaps (739457::int, 739459) (739459, 739461)"
    by (simp_all add: overlaps_def)
  ultimately show ?thesis
    using out no_conflict_when_apart [OF july_apart] july_back_to_back july_available by simp
qed

subsection \<open>Dates that are not zero-padded\<close>

text \<open>
  Claim C1 asks for the conflict error exactly when an active booking of the room
  overlaps the requested days. \<open>book_hotel\<close> decides the overlap on the strings, while it
  accepts every string that \<open>strptime\<close> parses, also one with a month or day of one
  digit; such a string is not ordered as its day. With the booking of \<open>room_1_1\<close> from
  2025-07-25 to 2025-07-27 in the ledger, the request from \<open>2025-7-26\<close> to \<open>2025-7-28\<close>
  for the same room parses, covers the night of 26 July that the booking holds, and is
  confirmed: the room is booked twice. In the other direction, after a booking of
  \<open>room_100\<close> from \<open>2025-07-25\<close> to \<open>2025-7-27\<close> was accepted, the request from
  2025-07-27 to 2025-07-29 is refused with the conflict error although no day is shared.
  With canonical strings throughout the claim holds (\<open>book_hotel_conflict_canonical\<close>),
  and its example, the request from 2025-07-26 to 2025-07-28, is refused
  (\<open>july_conflict\<close>).
\<close>

theorem book_hotel_unpadded_dates:
  "book_hotel july_store ''n1'' ''hotel_1'' ''room_1_1'' ''Ann'' ''ann@example.org''
       ''2025-7-26'' ''2025-7-28''
     = (BookConfirmed
          \<lparr> b_id = ''n1'', b_hotel_id = ''hotel_1'', b_room_id = ''room_1_1'',
            b_guest_name = ''Ann'', b_guest_email = ''ann@example.org'',
            b_check_in = ''2025-7-26'', b_check_out = ''2025-7-28'',
            b_total_price = 500, b_status = ''confirmed'' \<rparr>
          hotel_1 room_1_1 2 ''Booking confirmed! Your reservation ID is n1'',
        july_store\<lparr>BOOKINGS := BOOKINGS july_store @
          [\<lparr> b_id = ''n1'', b_hotel_id = ''hotel_1'', b_room_id = ''room_1_1'',
             b_guest_name = ''Ann'', b_guest_email = ''ann@example.org'',
             b_check_in = ''2025-7-26'', b_check_out = ''2025-7-28'',
             b_total_price = 500, b_status = ''confirmed'' \<rparr>]\<rparr>)
   \<and> booking_july \<in> set (BOOKINGS july_store)
   \<and> b_room_id booking_july = ''room_1_1'' \<and> active booking_july
   \<and> date_ranges_overlap ''2025-7-26'' ''2025-7-28'' booking_july
   \<and> fst (book_hotel
        (snd (book_hotel july_store ''n1'' ''hotel_1'' ''room_100'' ''Ann'' ''ann@example.org''
                ''2025-07-25'' ''2025-7-27''))
        ''n2'' ''hotel_1'' ''room_100'' ''Bob'' ''bob@example.org'' ''2025-07-27'' ''2025-07-29'')
       = BookConflict ''Room is not available for these dates due to existing bookings''
           [''2025-07-25 to 2025-7-27'']
   \<and> strptime ''2025-7-27'' = strptime ''2025-07-27''"
proof -
  have "strptime ''2025-7-27'' = Some 739459"
    by (simp add: date_defs)
  then show ?thesis
    by (simp add: book_hotel_def Let_def conflict_defs date_ranges_overlap_def
        july_store_def data_defs)
qed


end
